theory Spec2Isabelle
  imports Complex_Main "HOL-Library.Word" "HOL-Library.Sublist" "HOL-Library.List_Lexorder"
    "HOL-Library.AList"
begin

section \<open>Values of the Python program\<close>

text \<open>
  A \<open>bytes\<close> object is a list of 8-bit words. A \<open>str\<close> is a list of Unicode code
  points (natural numbers); Python compares two of them lexicographically by code point,
  which is the order \<open>HOL-Library.List_Lexorder\<close> puts on lists. Integers that
  \<open>struct.unpack\<close> returns are Python integers and never wrap, so they are \<open>nat\<close>
  (all the formats the program uses are unsigned).
\<close>

type_synonym byte = "8 word"
type_synonym pybytes = "byte list"
type_synonym pystr = "nat list"

text \<open>The exceptions the functions below can raise.\<close>

datatype error =
    StructError         \<comment> \<open>\<open>struct.error\<close>: the buffer is shorter than the format\<close>
  | IOError             \<comment> \<open>raised by \<open>ClusterData.read_blob\<close>\<close>
  | IndexError          \<comment> \<open>a list index out of range\<close>
  | UnicodeDecodeError  \<comment> \<open>only under \<open>errors="strict"\<close>\<close>
  | LZMAError           \<comment> \<open>raised by the decompressor\<close>
  | ValueError          \<comment> \<open>a negative read length on a buffered file\<close>
  | ZeroDivisionError
  | RecursionError      \<comment> \<open>raised by the interpreter at its recursion limit\<close>
  | KeyError            \<comment> \<open>a dictionary has no such key\<close>

text \<open>
  The outcome of a call: \<open>None\<close> when the call never returns, \<open>Some (Inl e)\<close> when it
  raises \<open>e\<close>, \<open>Some (Inr v)\<close> when it returns \<open>v\<close>.
\<close>

type_synonym 'a outcome = "(error + 'a) option"

definition returns :: "'a \<Rightarrow> 'a outcome" where
  "returns v = Some (Inr v)"

definition raises :: "error \<Rightarrow> 'a outcome" where
  "raises e = Some (Inl e)"

definition bind_outcome :: "'a outcome \<Rightarrow> ('a \<Rightarrow> 'b outcome) \<Rightarrow> 'b outcome" where
  "bind_outcome m f =
     (case m of None \<Rightarrow> None | Some (Inl e) \<Rightarrow> Some (Inl e) | Some (Inr v) \<Rightarrow> f v)"

definition str_of :: "string \<Rightarrow> pystr" where
  "str_of s = map of_char s"

definition bytes_of :: "string \<Rightarrow> pybytes" where
  "bytes_of s = map of_char s"

section \<open>Files and struct.unpack\<close>

text \<open>
  A file opened \<open>"rb"\<close> is its content; \<open>file.seek(pos)\<close> followed by
  \<open>file.read(n)\<close> returns the at most \<open>n\<close> bytes from \<open>pos\<close> on (fewer at the end of
  the file, none beyond it).
\<close>

definition read_at :: "pybytes \<Rightarrow> nat \<Rightarrow> nat \<Rightarrow> pybytes" where
  "read_at f pos n = take n (drop pos f)"

fun le_nat :: "pybytes \<Rightarrow> nat" where
  "le_nat [] = 0"
| "le_nat (b # bs) = unat b + 256 * le_nat bs"

text \<open>
  \<open>unpack("<H", buf)\<close>, \<open>unpack("<I", buf)\<close>, \<open>unpack("<Q", buf)\<close>: one little-endian
  unsigned integer of \<open>w\<close> bytes; \<open>struct.error\<close> unless the buffer has exactly \<open>w\<close>
  bytes.
\<close>

definition unpack_uint :: "nat \<Rightarrow> pybytes \<Rightarrow> error + nat" where
  "unpack_uint w buf = (if length buf = w then Inr (le_nat buf) else Inl StructError)"

section \<open>bytes.decode\<close>

text \<open>
  \<open>bytes.decode(encoding, errors)\<close> is the Python runtime's. It is modelled for three
  encodings and the three standard error handlers. A decoder reads one character at a
  time; at a malformed sequence it reports how many bytes the sequence spans, and the
  handler decides: \<open>strict\<close> raises, \<open>ignore\<close> continues after the sequence,
  \<open>replace\<close> emits U+FFFD and continues after it.
\<close>

datatype encoding = Ascii | Latin1 | Utf8

datatype errors_mode = Strict | Ignore | Replace

datatype step = Decoded nat nat | Malformed nat

definition is_cont :: "byte \<Rightarrow> bool" where
  "is_cont b = (0x80 \<le> unat b \<and> unat b \<le> 0xBF)"

text \<open>
  One step of CPython's UTF-8 decoder on a non-empty input: the ranges of the lead byte,
  the restricted second byte after E0, ED, F0 and F4 (no overlong forms, no surrogates,
  nothing beyond U+10FFFF), and the span of a malformed sequence (the lead byte and the
  continuation bytes that were accepted before the offending byte or the end of input).
\<close>

fun utf8_step :: "pybytes \<Rightarrow> step" where
  "utf8_step [] = Malformed 1"
| "utf8_step (b # bs) =
     (let c = unat b in
      if c < 0x80 then Decoded c 1
      else if c < 0xC2 then Malformed 1
      else if c < 0xE0 then
        (case bs of
           [] \<Rightarrow> Malformed 1
         | b2 # _ \<Rightarrow>
             if is_cont b2 then Decoded ((c - 0xC0) * 64 + (unat b2 - 0x80)) 2
             else Malformed 1)
      else if c < 0xF0 then
        (case bs of
           [] \<Rightarrow> Malformed 1
         | b2 # bs2 \<Rightarrow>
             if \<not> is_cont b2 \<or> (if unat b2 < 0xA0 then c = 0xE0 else c = 0xED)
             then Malformed 1
             else
               (case bs2 of
                  [] \<Rightarrow> Malformed 2
                | b3 # _ \<Rightarrow>
                    if is_cont b3
                    then Decoded ((c - 0xE0) * 4096 + (unat b2 - 0x80) * 64 + (unat b3 - 0x80)) 3
                    else Malformed 2))
      else if c < 0xF5 then
        (case bs of
           [] \<Rightarrow> Malformed 1
         | b2 # bs2 \<Rightarrow>
             if \<not> is_cont b2 \<or> (if unat b2 < 0x90 then c = 0xF0 else c = 0xF4)
             then Malformed 1
             else
               (case bs2 of
                  [] \<Rightarrow> Malformed 2
                | b3 # bs3 \<Rightarrow>
                    if \<not> is_cont b3 then Malformed 2
                    else
                      (case bs3 of
                         [] \<Rightarrow> Malformed 3
                       | b4 # _ \<Rightarrow>
                           if is_cont b4
                           then Decoded ((c - 0xF0) * 262144 + (unat b2 - 0x80) * 4096
                                      + (unat b3 - 0x80) * 64 + (unat b4 - 0x80)) 4
                           else Malformed 3)))
      else Malformed 1)"

fun codec_step :: "encoding \<Rightarrow> pybytes \<Rightarrow> step" where
  "codec_step Ascii bs = (if unat (hd bs) < 0x80 then Decoded (unat (hd bs)) 1 else Malformed 1)"
| "codec_step Latin1 bs = Decoded (unat (hd bs)) 1"
| "codec_step Utf8 bs = utf8_step bs"

fun step_span :: "step \<Rightarrow> nat" where
  "step_span (Decoded c n) = n"
| "step_span (Malformed n) = n"

lemma utf8_step_pos: "0 < step_span (utf8_step bs)"
  by (cases bs) (auto simp: Let_def split: list.splits)

lemma codec_step_pos: "0 < step_span (codec_step enc bs)"
  by (cases enc) (auto simp: utf8_step_pos)

function decode :: "encoding \<Rightarrow> errors_mode \<Rightarrow> pybytes \<Rightarrow> error + pystr" where
  "decode enc mode bs =
     (if bs = [] then Inr []
      else
        (case codec_step enc bs of
           Decoded c n \<Rightarrow>
             (case decode enc mode (drop n bs) of
                Inl e \<Rightarrow> Inl e
              | Inr s \<Rightarrow> Inr (c # s))
         | Malformed n \<Rightarrow>
             (case mode of
                Strict \<Rightarrow> Inl UnicodeDecodeError
              | Ignore \<Rightarrow> decode enc mode (drop n bs)
              | Replace \<Rightarrow>
                  (case decode enc mode (drop n bs) of
                     Inl e \<Rightarrow> Inl e
                   | Inr s \<Rightarrow> Inr (0xFFFD # s)))))"
  by pat_completeness auto
termination
proof (relation "measure (\<lambda>(enc, mode, bs). length bs)")
  show "wf (measure (\<lambda>(enc, mode, bs). length bs))" by simp
next
  fix enc :: encoding and mode :: errors_mode and bs :: pybytes and c n :: nat
  assume "bs \<noteq> []" and "codec_step enc bs = Decoded c n"
  with codec_step_pos [of enc bs]
  show "((enc, mode, drop n bs), enc, mode, bs) \<in> measure (\<lambda>(enc, mode, bs). length bs)"
    by simp
next
  fix enc :: encoding and mode :: errors_mode and bs :: pybytes and n :: nat
  assume "bs \<noteq> []" and "codec_step enc bs = Malformed n"
  with codec_step_pos [of enc bs]
  show "((enc, mode, drop n bs), enc, mode, bs) \<in> measure (\<lambda>(enc, mode, bs). length bs)"
    by simp
next
  fix enc :: encoding and mode :: errors_mode and bs :: pybytes and n :: nat
  assume "bs \<noteq> []" and "codec_step enc bs = Malformed n"
  with codec_step_pos [of enc bs]
  show "((enc, mode, drop n bs), enc, mode, bs) \<in> measure (\<lambda>(enc, mode, bs). length bs)"
    by simp
qed

declare decode.simps [simp del]

text \<open>
  The steps the decoder takes on an input, and what the handlers \<open>ignore\<close> and
  \<open>replace\<close> make of them: a decoded character is kept by both; a malformed sequence
  gives nothing under \<open>ignore\<close> and the marker U+FFFD under \<open>replace\<close>.
\<close>

function decode_steps :: "encoding \<Rightarrow> pybytes \<Rightarrow> step list" where
  "decode_steps enc bs =
     (if bs = [] then []
      else codec_step enc bs # decode_steps enc (drop (step_span (codec_step enc bs)) bs))"
  by pat_completeness auto
termination
proof (relation "measure (\<lambda>(enc, bs). length bs)")
  show "wf (measure (\<lambda>(enc, bs). length bs))" by simp
next
  fix enc :: encoding and bs :: pybytes
  assume "bs \<noteq> []"
  with codec_step_pos [of enc bs]
  show "((enc, drop (step_span (codec_step enc bs)) bs), enc, bs) \<in> measure (\<lambda>(enc, bs). length bs)"
    by simp
qed

declare decode_steps.simps [simp del]

fun chars_kept :: "step list \<Rightarrow> pystr" where
  "chars_kept [] = []"
| "chars_kept (Decoded c n # steps) = c # chars_kept steps"
| "chars_kept (Malformed n # steps) = chars_kept steps"

fun chars_replaced :: "step list \<Rightarrow> pystr" where
  "chars_replaced [] = []"
| "chars_replaced (Decoded c n # steps) = c # chars_replaced steps"
| "chars_replaced (Malformed n # steps) = 0xFFFD # chars_replaced steps"

section \<open>read_zero_terminated\<close>

text \<open>
  \<open>iter(partial(file.read, 1), ZERO)\<close> calls \<open>file.read(1)\<close> until it returns the zero
  byte. At the end of the file \<open>file.read(1)\<close> returns \<open>b""\<close>, which is not the
  sentinel, so the iterator never ends: on input without a zero byte the call does not
  return (\<open>None\<close>). Otherwise the bytes before the first zero are joined.
\<close>

fun read_until_zero :: "pybytes \<Rightarrow> pybytes option" where
  "read_until_zero [] = None"
| "read_until_zero (b # bs) =
     (if b = 0 then Some []
      else (case read_until_zero bs of None \<Rightarrow> None | Some field \<Rightarrow> Some (b # field)))"

text \<open>
  The field is decoded with \<open>errors="ignore"\<close>. The result is the string and the
  position of the file after the call (behind the terminator).
\<close>

definition read_zero_terminated :: "pybytes \<Rightarrow> nat \<Rightarrow> encoding \<Rightarrow> (pystr \<times> nat) outcome" where
  "read_zero_terminated f pos enc =
     (case read_until_zero (drop pos f) of
        None \<Rightarrow> None
      | Some field \<Rightarrow>
          (case decode enc Ignore field of
             Inl e \<Rightarrow> raises e
           | Inr s \<Rightarrow> returns (s, pos + length field + 1)))"

section \<open>ClusterData\<close>

text \<open>
  \<open>lzma.LZMADecompressor\<close> is the Python runtime's: the functions below take it as the
  parameter \<open>lz\<close>, which maps the bytes of the file behind the compression byte to the
  decompressed stream, to \<open>LZMAError\<close>, or to \<open>None\<close> when the stream is cut short (the
  loop \<open>while not decompressor.eof\<close> then reads \<open>b""\<close> for ever). The \<open>lru_cache\<close> on
  the class only reuses an object built from the same arguments; the file is never written,
  so it changes no result and is left out.
\<close>

type_synonym lzma = "pybytes \<Rightarrow> pybytes outcome"

record ClusterData =
  cluster_file :: pybytes
  cluster_offset :: nat
  compressed :: bool
  buffer :: pybytes
  offsets :: "nat list"

text \<open>\<open>_source_buffer\<close>: the bytes from the start of the cluster body on.\<close>

definition source_buffer :: "ClusterData \<Rightarrow> pybytes" where
  "source_buffer cd =
     (if compressed cd then buffer cd else drop (cluster_offset cd + 1) (cluster_file cd))"

text \<open>
  \<open>_read_offsets\<close>: the first offset, then \<open>int(offset0 / 4) - 1\<close> further ones, each read
  with \<open>unpack("<I", buffer.read(4))\<close> at the position the previous read left.
\<close>

fun read_more_offsets :: "pybytes \<Rightarrow> nat \<Rightarrow> nat \<Rightarrow> nat list \<Rightarrow> error + nat list" where
  "read_more_offsets body pos 0 acc = Inr acc"
| "read_more_offsets body pos (Suc n) acc =
     (case unpack_uint 4 (read_at body pos 4) of
        Inl e \<Rightarrow> Inl e
      | Inr v \<Rightarrow> read_more_offsets body (pos + 4) n (acc @ [v]))"

definition read_offsets :: "pybytes \<Rightarrow> error + nat list" where
  "read_offsets body =
     (case unpack_uint 4 (read_at body 0 4) of
        Inl e \<Rightarrow> Inl e
      | Inr offset0 \<Rightarrow>
          (let number_of_blobs = offset0 div 4
           in read_more_offsets body 4 (number_of_blobs - 1) [offset0]))"

text \<open>
  \<open>ClusterData.__init__\<close>: the compression byte, \<open>compressed = (compressionType == 4)\<close>,
  decompression when compressed, then the offsets. Every compression type other than 4
  takes the branch of the uncompressed cluster.
\<close>

definition ClusterData_init :: "lzma \<Rightarrow> pybytes \<Rightarrow> nat \<Rightarrow> ClusterData outcome" where
  "ClusterData_init lz f off =
     (case unpack_uint 1 (read_at f off 1) of
        Inl e \<Rightarrow> raises e
      | Inr compressionType \<Rightarrow>
          (let is_compressed = (compressionType = 4)
           in bind_outcome (if is_compressed then lz (drop (off + 1) f) else returns [])
                (\<lambda>data.
                   let cd = \<lparr>cluster_file = f, cluster_offset = off,
                             compressed = is_compressed, buffer = data, offsets = []\<rparr>
                   in (case read_offsets (source_buffer cd) of
                         Inl e \<Rightarrow> raises e
                       | Inr offs \<Rightarrow> returns (cd\<lparr>offsets := offs\<rparr>)))))"

text \<open>
  \<open>read_blob\<close>. With a negative size, \<open>BytesIO.read\<close> (the decompressed buffer) reads to
  the end; a buffered file does so for \<open>-1\<close> only and raises \<open>ValueError\<close> below that.
\<close>

definition read_blob :: "ClusterData \<Rightarrow> nat \<Rightarrow> error + pybytes" where
  "read_blob cd blob_index =
     (if int blob_index \<ge> int (length (offsets cd)) - 1 then Inl IOError
      else
        (let body = source_buffer cd;
             blob_size = int (offsets cd ! (blob_index + 1)) - int (offsets cd ! blob_index)
         in if 0 \<le> blob_size then Inr (read_at body (offsets cd ! blob_index) (nat blob_size))
            else if compressed cd \<or> blob_size = - 1
              then Inr (drop (offsets cd ! blob_index) body)
            else Inl ValueError))"

text \<open>
  What \<open>ZIMFile._read_blob\<close> does once it has the cluster's offset: build the reader,
  read the blob.
\<close>

definition cluster_blob :: "lzma \<Rightarrow> pybytes \<Rightarrow> nat \<Rightarrow> nat \<Rightarrow> pybytes outcome" where
  "cluster_blob lz f off blob_index =
     bind_outcome (ClusterData_init lz f off)
       (\<lambda>cluster_data.
          case read_blob cluster_data blob_index of
            Inl e \<Rightarrow> raises e
          | Inr blob \<Rightarrow> returns blob)"

section \<open>ZIMFile\<close>

record header =
  magicNumber :: nat
  version :: nat
  uuid_low :: nat
  uuid_high :: nat
  articleCount :: nat
  clusterCount :: nat
  urlPtrPos :: nat
  titlePtrPos :: nat
  clusterPtrPos :: nat
  mimeListPos :: nat
  mainPage :: nat
  layoutPage :: nat
  checksumPos :: nat

record ZIMFile =
  zim_file :: pybytes
  zim_enc :: encoding
  header_fields :: header
  mimetype_list :: "pystr list"

text \<open>
  \<open>HeaderBlock.unpack_from_file\<close>: the 80 bytes at the start of the file, format
  \<open><IIQQIIQQQQIIQ\<close>.
\<close>

definition unpack_header :: "pybytes \<Rightarrow> error + header" where
  "unpack_header buf =
     (if length buf < 80 then Inl StructError
      else Inr
        \<lparr>magicNumber = le_nat (take 4 buf),
         version = le_nat (take 4 (drop 4 buf)),
         uuid_low = le_nat (take 8 (drop 8 buf)),
         uuid_high = le_nat (take 8 (drop 16 buf)),
         articleCount = le_nat (take 4 (drop 24 buf)),
         clusterCount = le_nat (take 4 (drop 28 buf)),
         urlPtrPos = le_nat (take 8 (drop 32 buf)),
         titlePtrPos = le_nat (take 8 (drop 40 buf)),
         clusterPtrPos = le_nat (take 8 (drop 48 buf)),
         mimeListPos = le_nat (take 8 (drop 56 buf)),
         mainPage = le_nat (take 4 (drop 64 buf)),
         layoutPage = le_nat (take 4 (drop 68 buf)),
         checksumPos = le_nat (take 8 (drop 72 buf))\<rparr>)"

lemma read_until_zero_length:
  "read_until_zero bs = Some field \<Longrightarrow> length field < length bs"
  by (induction bs arbitrary: field) (auto split: if_splits option.splits)

lemma read_zero_terminated_pos:
  assumes "read_zero_terminated f pos enc = Some (Inr (s, pos'))"
  shows "pos < pos' \<and> pos' \<le> length f"
proof -
  from assms obtain field where field: "read_until_zero (drop pos f) = Some field"
    and pos': "pos' = pos + length field + 1"
    by (auto simp: read_zero_terminated_def returns_def raises_def
        split: option.splits sum.splits)
  from read_until_zero_length [OF field] have "length field < length f - pos" by simp
  with pos' show ?thesis by simp
qed

text \<open>
  \<open>MimeTypeListBlock.unpack_from_file\<close>: zero-terminated strings from \<open>mimeListPos\<close> on,
  up to the first one that decodes to the empty string.
\<close>

function read_mimetypes :: "pybytes \<Rightarrow> encoding \<Rightarrow> nat \<Rightarrow> pystr list \<Rightarrow> pystr list outcome" where
  "read_mimetypes f enc pos mimetypes =
     (case read_zero_terminated f pos enc of
        None \<Rightarrow> None
      | Some (Inl e) \<Rightarrow> Some (Inl e)
      | Some (Inr (s, pos')) \<Rightarrow>
          if s = [] then returns mimetypes
          else read_mimetypes f enc pos' (mimetypes @ [s]))"
  by pat_completeness auto
termination
proof (relation "measure (\<lambda>(f, enc, pos, mimetypes). length f - pos)")
  show "wf (measure (\<lambda>(f, enc, pos, mimetypes). length f - pos))" by simp
next
  fix f :: pybytes and enc pos and mimetypes :: "pystr list" and x2 x2a x y
  assume "read_zero_terminated f pos enc = Some x2" and "x2 = Inr x2a" and "(x, y) = x2a"
  then have "read_zero_terminated f pos enc = Some (Inr (x, y))" by simp
  from read_zero_terminated_pos [OF this]
  show "((f, enc, y, mimetypes @ [x]), f, enc, pos, mimetypes)
          \<in> measure (\<lambda>(f, enc, pos, mimetypes). length f - pos)"
    by auto
qed

declare read_mimetypes.simps [simp del]

text \<open>\<open>ZIMFile.__init__\<close>, on the content of the file at \<open>filename\<close>.\<close>

definition ZIMFile_init :: "pybytes \<Rightarrow> encoding \<Rightarrow> ZIMFile outcome" where
  "ZIMFile_init f encoding =
     (case unpack_header (read_at f 0 80) of
        Inl e \<Rightarrow> raises e
      | Inr hdr \<Rightarrow>
          bind_outcome (read_mimetypes f encoding (mimeListPos hdr) [])
            (\<lambda>mimetypes.
               returns \<lparr>zim_file = f, zim_enc = encoding, header_fields = hdr,
                        mimetype_list = mimetypes\<rparr>))"

text \<open>
  A directory entry is the dictionary \<open>DirectoryBlock.unpack_from_file\<close> returns. An
  article entry has the keys \<open>clusterNumber\<close> and \<open>blobNumber\<close>, a redirect entry has
  \<open>redirectIndex\<close> instead; \<open>index\<close> is set by \<open>read_directory_entry_by_index\<close>.
\<close>

datatype entry_kind =
    ArticleEntry (clusterNumber: nat) (blobNumber: nat)
  | RedirectEntry (redirectIndex: nat)

record entry =
  mimetype :: nat
  parameterLen :: nat
  namespace :: pystr
  revision :: nat
  kind :: entry_kind
  url :: pystr
  title :: pystr
  index :: "nat option"

datatype mime = MimeType pystr | RedirectTo nat

datatype Article = Article (data: "pybytes option") (article_namespace: pystr) (article_mimetype: mime)

definition full_url :: "pystr \<Rightarrow> pystr \<Rightarrow> pystr" where
  "full_url ns u = ns @ str_of ''/'' @ u"

text \<open>
  \<open>_read_offset\<close>: seek to \<open>header_fields[field_name] + length * index\<close>, read \<open>length\<close>
  bytes, unpack one unsigned integer.
\<close>

definition read_offset :: "ZIMFile \<Rightarrow> nat \<Rightarrow> nat \<Rightarrow> nat \<Rightarrow> error + nat" where
  "read_offset zim idx field_pos len =
     unpack_uint len (read_at (zim_file zim) (field_pos + len * idx) len)"

definition read_url_offset :: "ZIMFile \<Rightarrow> nat \<Rightarrow> error + nat" where
  "read_url_offset zim idx = read_offset zim idx (urlPtrPos (header_fields zim)) 8"

definition read_title_offset :: "ZIMFile \<Rightarrow> nat \<Rightarrow> error + nat" where
  "read_title_offset zim idx = read_offset zim idx (titlePtrPos (header_fields zim)) 4"

definition read_cluster_offset :: "ZIMFile \<Rightarrow> nat \<Rightarrow> error + nat" where
  "read_cluster_offset zim idx = read_offset zim idx (clusterPtrPos (header_fields zim)) 8"

text \<open>
  \<open>_read_directory_entry\<close>: the first two bytes choose the block (\<open>0xffff\<close>: redirect,
  12 bytes; otherwise article, 16 bytes); \<open>Struct.unpack_from\<close> needs the whole block;
  the url and the title follow as zero-terminated strings; the namespace byte is decoded
  like them.
\<close>

definition read_directory_entry :: "ZIMFile \<Rightarrow> nat \<Rightarrow> entry outcome" where
  "read_directory_entry zim off =
     (case unpack_uint 2 (read_at (zim_file zim) off 2) of
        Inl e \<Rightarrow> raises e
      | Inr m \<Rightarrow>
          (let is_redirect = (m = 0xffff);
               size = (if is_redirect then 12 else 16);
               buf = read_at (zim_file zim) off size
           in if length buf < size then raises StructError
              else
                bind_outcome (read_zero_terminated (zim_file zim) (off + size) (zim_enc zim))
                  (\<lambda>(u, pos).
                     bind_outcome (read_zero_terminated (zim_file zim) pos (zim_enc zim))
                       (\<lambda>(t, pos').
                          case decode (zim_enc zim) Ignore [buf ! 3] of
                            Inl e \<Rightarrow> raises e
                          | Inr ns \<Rightarrow>
                              returns
                                \<lparr>mimetype = le_nat (take 2 buf),
                                 parameterLen = unat (buf ! 2),
                                 namespace = ns,
                                 revision = le_nat (take 4 (drop 4 buf)),
                                 kind =
                                   (if is_redirect
                                    then RedirectEntry (le_nat (take 4 (drop 8 buf)))
                                    else ArticleEntry (le_nat (take 4 (drop 8 buf)))
                                           (le_nat (take 4 (drop 12 buf)))),
                                 url = u,
                                 title = t,
                                 index = None\<rparr>))))"

definition read_directory_entry_by_index :: "ZIMFile \<Rightarrow> nat \<Rightarrow> entry outcome" where
  "read_directory_entry_by_index zim idx =
     (case read_url_offset zim idx of
        Inl e \<Rightarrow> raises e
      | Inr off \<Rightarrow>
          bind_outcome (read_directory_entry zim off)
            (\<lambda>directory_values. returns (directory_values\<lparr>index := Some idx\<rparr>)))"

text \<open>\<open>ZIMFile._read_blob\<close>.\<close>

definition zim_read_blob :: "lzma \<Rightarrow> ZIMFile \<Rightarrow> nat \<Rightarrow> nat \<Rightarrow> pybytes outcome" where
  "zim_read_blob lz zim cluster_index blob_index =
     (case read_cluster_offset zim cluster_index of
        Inl e \<Rightarrow> raises e
      | Inr off \<Rightarrow> cluster_blob lz (zim_file zim) off blob_index)"

text \<open>
  \<open>_get_article_by_index\<close> calls itself on the target of a redirect entry, with nothing
  that counts the calls or remembers the indices already seen. The function is therefore
  partial: its value is \<open>None\<close> where the recursion never reaches an article entry. (The
  CPython interpreter ends such a recursion with \<open>RecursionError\<close> when its own stack
  limit is reached; that limit is the interpreter's setting, not the program's.)
\<close>

partial_function (option) get_article_by_index ::
  "lzma \<Rightarrow> ZIMFile \<Rightarrow> nat \<Rightarrow> bool \<Rightarrow> (error + Article) option" where
  "get_article_by_index lz zim idx follow_redirect =
     (case read_directory_entry_by_index zim idx of
        None \<Rightarrow> None
      | Some (Inl e) \<Rightarrow> Some (Inl e)
      | Some (Inr entry) \<Rightarrow>
          (case kind entry of
             RedirectEntry target \<Rightarrow>
               if follow_redirect then get_article_by_index lz zim target follow_redirect
               else Some (Inr (Article None (namespace entry) (RedirectTo target)))
           | ArticleEntry cluster blob \<Rightarrow>
               (case zim_read_blob lz zim cluster blob of
                  None \<Rightarrow> None
                | Some (Inl e) \<Rightarrow> Some (Inl e)
                | Some (Inr bytes) \<Rightarrow>
                    if mimetype entry < length (mimetype_list zim)
                    then Some (Inr (Article (Some bytes) (namespace entry)
                                      (MimeType (mimetype_list zim ! mimetype entry))))
                    else Some (Inl IndexError))))"

text \<open>
  The same function as the CPython interpreter runs it when at most \<open>limit\<close> nested calls
  of it fit under the interpreter's recursion limit: the call that would exceed the limit
  raises \<open>RecursionError\<close>.
\<close>

fun get_article_by_index_limited ::
  "nat \<Rightarrow> lzma \<Rightarrow> ZIMFile \<Rightarrow> nat \<Rightarrow> bool \<Rightarrow> Article outcome" where
  "get_article_by_index_limited 0 lz zim idx follow_redirect = raises RecursionError"
| "get_article_by_index_limited (Suc limit) lz zim idx follow_redirect =
     (case read_directory_entry_by_index zim idx of
        None \<Rightarrow> None
      | Some (Inl e) \<Rightarrow> Some (Inl e)
      | Some (Inr entry) \<Rightarrow>
          (case kind entry of
             RedirectEntry target \<Rightarrow>
               if follow_redirect
               then get_article_by_index_limited limit lz zim target follow_redirect
               else Some (Inr (Article None (namespace entry) (RedirectTo target)))
           | ArticleEntry cluster blob \<Rightarrow>
               (case zim_read_blob lz zim cluster blob of
                  None \<Rightarrow> None
                | Some (Inl e) \<Rightarrow> Some (Inl e)
                | Some (Inr bytes) \<Rightarrow>
                    if mimetype entry < length (mimetype_list zim)
                    then Some (Inr (Article (Some bytes) (namespace entry)
                                      (MimeType (mimetype_list zim ! mimetype entry))))
                    else Some (Inl IndexError))))"

text \<open>
  \<open>_get_entry_by_url\<close>, the linear scan: \<open>for idx in range(articleCount)\<close>. The result
  \<open>(None, None)\<close> is \<open>None\<close>, the result \<open>(entry, idx)\<close> is \<open>Some (entry, idx)\<close>.
\<close>

fun linear_scan :: "ZIMFile \<Rightarrow> pystr \<Rightarrow> pystr \<Rightarrow> nat list \<Rightarrow> (entry \<times> nat) option outcome" where
  "linear_scan zim ns u [] = returns None"
| "linear_scan zim ns u (idx # rest) =
     (case read_directory_entry_by_index zim idx of
        None \<Rightarrow> None
      | Some (Inl e) \<Rightarrow> Some (Inl e)
      | Some (Inr entry) \<Rightarrow>
          if url entry = u \<and> namespace entry = ns then returns (Some (entry, idx))
          else linear_scan zim ns u rest)"

text \<open>
  The binary search: \<open>front = 0\<close>, \<open>end = len(self)\<close>, \<open>while front <= end and not
  found\<close>, \<open>middle = floor((front + end) / 2)\<close>. The bounds are Python integers (\<open>end\<close>
  becomes \<open>-1\<close> when index 0 is too late), and \<open>articleCount\<close> is a 32-bit field, so the
  float division is exact and \<open>middle\<close> is the integer quotient. The value is the index
  found, if any.
\<close>

function binary_search_loop :: "ZIMFile \<Rightarrow> pystr \<Rightarrow> int \<Rightarrow> int \<Rightarrow> nat option outcome" where
  "binary_search_loop zim t front end' =
     (if front \<le> end' then
        (let middle = (front + end') div 2 in
         case read_directory_entry_by_index zim (nat middle) of
           None \<Rightarrow> None
         | Some (Inl e) \<Rightarrow> Some (Inl e)
         | Some (Inr entry) \<Rightarrow>
             (let found_title = full_url (namespace entry) (url entry) in
              if found_title = t then returns (Some (nat middle))
              else if found_title < t then binary_search_loop zim t (middle + 1) end'
              else binary_search_loop zim t front (middle - 1)))
      else returns None)"
  by pat_completeness auto
termination
  by (relation "measure (\<lambda>(zim, t, front, end'). nat (end' - front + 1))") auto

declare binary_search_loop.simps [simp del]

text \<open>
  The directory indices the loop passes to \<open>read_directory_entry_by_index\<close>, in order:
  the same loop, collecting \<open>middle\<close>.
\<close>

function binary_search_probes :: "ZIMFile \<Rightarrow> pystr \<Rightarrow> int \<Rightarrow> int \<Rightarrow> int list" where
  "binary_search_probes zim t front end' =
     (if front \<le> end' then
        (let middle = (front + end') div 2 in
         middle #
         (case read_directory_entry_by_index zim (nat middle) of
            None \<Rightarrow> []
          | Some (Inl e) \<Rightarrow> []
          | Some (Inr entry) \<Rightarrow>
              (let found_title = full_url (namespace entry) (url entry) in
               if found_title = t then []
               else if found_title < t then binary_search_probes zim t (middle + 1) end'
               else binary_search_probes zim t front (middle - 1))))
      else [])"
  by pat_completeness auto
termination
  by (relation "measure (\<lambda>(zim, t, front, end'). nat (end' - front + 1))") auto

declare binary_search_probes.simps [simp del]

definition get_entry_by_url :: "ZIMFile \<Rightarrow> pystr \<Rightarrow> pystr \<Rightarrow> bool \<Rightarrow> (entry \<times> nat) option outcome" where
  "get_entry_by_url zim ns u is_linear =
     (if is_linear then linear_scan zim ns u [0..<articleCount (header_fields zim)]
      else
        bind_outcome
          (binary_search_loop zim (full_url ns u) 0 (int (articleCount (header_fields zim))))
          (\<lambda>found.
             case found of
               None \<Rightarrow> returns None
             | Some middle \<Rightarrow>
                 bind_outcome (read_directory_entry_by_index zim middle)
                   (\<lambda>entry. returns (Some (entry, middle)))))"

text \<open>
  \<open>get_article_by_url\<close>: \<open>if idx:\<close> is false for \<open>None\<close> and for the index \<open>0\<close>.
\<close>

definition get_article_by_url :: "lzma \<Rightarrow> ZIMFile \<Rightarrow> pystr \<Rightarrow> pystr \<Rightarrow> bool \<Rightarrow> Article option outcome" where
  "get_article_by_url lz zim ns u follow_redirect =
     bind_outcome (get_entry_by_url zim ns u False)
       (\<lambda>found.
          case found of
            None \<Rightarrow> returns None
          | Some (entry, idx) \<Rightarrow>
              if idx \<noteq> 0
              then bind_outcome (get_article_by_index lz zim idx follow_redirect)
                     (\<lambda>article. returns (Some article))
              else returns None)"

definition get_main_page :: "lzma \<Rightarrow> ZIMFile \<Rightarrow> Article outcome" where
  "get_main_page lz zim = get_article_by_index lz zim (mainPage (header_fields zim)) True"

text \<open>
  \<open>metadata\<close>: \<open>for i in range(articleCount - 1, -1, -1)\<close>, stored under
  \<open>entry['url'].lower()\<close>. \<open>str.lower\<close> is the Python runtime's and is the parameter
  \<open>lower\<close>. The dictionary is a map; a later assignment to a key replaces the earlier one.
\<close>

fun metadata_loop ::
  "lzma \<Rightarrow> (pystr \<Rightarrow> pystr) \<Rightarrow> ZIMFile \<Rightarrow> nat list \<Rightarrow> (pystr \<rightharpoonup> pybytes option)
     \<Rightarrow> (pystr \<rightharpoonup> pybytes option) outcome" where
  "metadata_loop lz lower zim [] m = returns m"
| "metadata_loop lz lower zim (i # rest) m =
     (case read_directory_entry_by_index zim i of
        None \<Rightarrow> None
      | Some (Inl e) \<Rightarrow> Some (Inl e)
      | Some (Inr entry) \<Rightarrow>
          if namespace entry = str_of ''M'' then
            (case get_article_by_index lz zim i True of
               None \<Rightarrow> None
             | Some (Inl e) \<Rightarrow> Some (Inl e)
             | Some (Inr article) \<Rightarrow>
                 metadata_loop lz lower zim rest (m(lower (url entry) \<mapsto> data article)))
          else returns m)"

definition metadata :: "lzma \<Rightarrow> (pystr \<Rightarrow> pystr) \<Rightarrow> ZIMFile \<Rightarrow> (pystr \<rightharpoonup> pybytes option) outcome" where
  "metadata lz lower zim =
     metadata_loop lz lower zim (rev [0..<articleCount (header_fields zim)]) Map.empty"

text \<open>The dictionary after the assignments for the indices \<open>k - 1\<close> down to \<open>j\<close>.\<close>

definition assigned ::
  "(nat \<Rightarrow> 'k) \<Rightarrow> (nat \<Rightarrow> 'v) \<Rightarrow> nat \<Rightarrow> nat \<Rightarrow> ('k \<rightharpoonup> 'v) \<Rightarrow> ('k \<rightharpoonup> 'v)" where
  "assigned key val j k m = fold (\<lambda>i m. m(key i \<mapsto> val i)) (rev [j..<k]) m"

section \<open>BM25\<close>

text \<open>
  The methods of \<open>str\<close> the ranker uses. \<open>doc.find(term)\<close> is the lowest index at which
  \<open>term\<close> starts in \<open>doc\<close>, or \<open>-1\<close>. \<open>doc.count(term)\<close> is the number of occurrences
  found from left to right without overlap; the empty string is found \<open>len(doc) + 1\<close>
  times.
\<close>

fun str_find :: "pystr \<Rightarrow> pystr \<Rightarrow> int" where
  "str_find [] term = (if term = [] then 0 else - 1)"
| "str_find (c # rest) term =
     (if prefix term (c # rest) then 0
      else (let r = str_find rest term in if r = - 1 then - 1 else r + 1))"

function str_count :: "pystr \<Rightarrow> pystr \<Rightarrow> nat" where
  "str_count doc term =
     (if term = [] then length doc + 1
      else if doc = [] then 0
      else if prefix term doc then 1 + str_count (drop (length term) doc) term
      else str_count (tl doc) term)"
  by pat_completeness auto
termination
  by (relation "measure (\<lambda>(doc, term). length doc)") auto

declare str_count.simps [simp del]

text \<open>
  A dictionary whose values are summed is an association list in insertion order:
  \<open>d[k] = v\<close> is \<open>AList.update k v\<close> (the value is replaced where the key is present, the
  pair is appended where it is not), \<open>d[k]\<close> is \<open>map_of d k\<close>, \<open>d.values()\<close> is
  \<open>map snd d\<close>. \<open>dict(pairs)\<close> assigns the pairs in order.
\<close>

definition dict_of_pairs :: "('k \<times> 'v) list \<Rightarrow> ('k \<times> 'v) list" where
  "dict_of_pairs ps = fold (\<lambda>(k, v). AList.update k v) ps []"

text \<open>
  The ranker object holds the two parameters, \<open>BM25()\<close> sets them to 1.2 and 0.75. Python's
  floats are modelled as real numbers: the properties below are about which counts enter
  the formula and about the shape of the result, not about rounding.
\<close>

record BM25 =
  bm_k1 :: real
  bm_b :: real

definition BM25_init :: BM25 where
  "BM25_init = \<lparr>bm_k1 = 1.2, bm_b = 0.75\<rparr>"

text \<open>
  The tally of the documents a term occurs in:
  \<open>frequency += 1 if document.find(term) > -1 else 0\<close>.
\<close>

fun tally_documents :: "pystr \<Rightarrow> pystr list \<Rightarrow> nat \<Rightarrow> nat" where
  "tally_documents term [] frequency = frequency"
| "tally_documents term (document # rest) frequency =
     tally_documents term rest (frequency + (if str_find document term > - 1 then 1 else 0))"

fun build_query_terms :: "pystr list \<Rightarrow> pystr list \<Rightarrow> (pystr \<times> nat) list \<Rightarrow> (pystr \<times> nat) list" where
  "build_query_terms [] corpus query_terms = query_terms"
| "build_query_terms (term # rest) corpus query_terms =
     build_query_terms rest corpus (query_terms @ [(term, tally_documents term corpus 0)])"

text \<open>
  The body of the inner loop, for one pair of \<open>query_terms\<close>: \<open>math.log\<close> raises
  \<open>ValueError\<close> outside its domain, \<open>num_words[hash(document)]\<close> raises \<open>KeyError\<close> for
  a missing key, a division by zero raises \<open>ZeroDivisionError\<close>. \<open>hash\<close> is the Python
  runtime's and is a parameter.
\<close>

definition term_score ::
  "BM25 \<Rightarrow> (pystr \<Rightarrow> int) \<Rightarrow> nat \<Rightarrow> real \<Rightarrow> (int \<times> nat) list \<Rightarrow> pystr \<Rightarrow> pystr \<times> nat
     \<Rightarrow> error + real" where
  "term_score bm hash corpus_size avg_doc_len num_words document term_frequency =
     (let (term, frequency) = term_frequency;
          x = (real frequency + 0.5) / (real corpus_size - real frequency + 0.5)
      in if x \<le> 0 then Inl ValueError
         else
           (let idf = ln x;
                doc_frequency = str_count document term
            in case map_of num_words (hash document) of
                 None \<Rightarrow> Inl KeyError
               | Some num_words_doc \<Rightarrow>
                   (let doc_k1 = real doc_frequency * (bm_k1 bm + 1)
                    in if avg_doc_len = 0 then Inl ZeroDivisionError
                       else
                         (let doc_b = real doc_frequency + bm_k1 bm * 1 - bm_b bm
                                      + bm_b bm * (real num_words_doc / avg_doc_len)
                          in if doc_b = 0 then Inl ZeroDivisionError
                             else Inr (idf * (doc_k1 / doc_b))))))"

fun score_terms ::
  "BM25 \<Rightarrow> (pystr \<Rightarrow> int) \<Rightarrow> nat \<Rightarrow> real \<Rightarrow> (int \<times> nat) list \<Rightarrow> pystr
     \<Rightarrow> (pystr \<times> nat) list \<Rightarrow> real \<Rightarrow> error + real" where
  "score_terms bm hash corpus_size avg_doc_len num_words document [] total_score =
     Inr total_score"
| "score_terms bm hash corpus_size avg_doc_len num_words document (term_frequency # rest)
     total_score =
     (case term_score bm hash corpus_size avg_doc_len num_words document term_frequency of
        Inl e \<Rightarrow> Inl e
      | Inr s \<Rightarrow>
          score_terms bm hash corpus_size avg_doc_len num_words document rest (total_score + s))"

fun score_documents ::
  "BM25 \<Rightarrow> (pystr \<Rightarrow> int) \<Rightarrow> nat \<Rightarrow> real \<Rightarrow> (int \<times> nat) list \<Rightarrow> (pystr \<times> nat) list
     \<Rightarrow> pystr list \<Rightarrow> real list \<Rightarrow> error + real list" where
  "score_documents bm hash corpus_size avg_doc_len num_words query_terms [] result = Inr result"
| "score_documents bm hash corpus_size avg_doc_len num_words query_terms (document # rest)
     result =
     (case score_terms bm hash corpus_size avg_doc_len num_words document query_terms 0 of
        Inl e \<Rightarrow> Inl e
      | Inr total_score \<Rightarrow>
          score_documents bm hash corpus_size avg_doc_len num_words query_terms rest
            (result @ [total_score]))"

text \<open>
  \<open>BM25.calculate_scores\<close>. \<open>str.lower\<close> is the parameter \<open>lower\<close>. The dictionary
  \<open>num_words\<close> is keyed by \<open>hash(doc)\<close>.
\<close>

definition num_words_dict :: "(pystr \<Rightarrow> int) \<Rightarrow> pystr list \<Rightarrow> (int \<times> nat) list" where
  "num_words_dict hash corpus =
     dict_of_pairs (map (\<lambda>doc. (hash doc, str_count doc (str_of '' '') + 1)) corpus)"

definition calculate_scores ::
  "BM25 \<Rightarrow> (pystr \<Rightarrow> pystr) \<Rightarrow> (pystr \<Rightarrow> int) \<Rightarrow> pystr list \<Rightarrow> pystr list \<Rightarrow> error + real list" where
  "calculate_scores bm lower hash query corpus =
     (let corpus_size = length corpus;
          query = map lower query;
          corpus = map lower corpus;
          num_words = num_words_dict hash corpus
      in if length corpus = 0 then Inl ZeroDivisionError
         else
           (let avg_doc_len = real (sum_list (map snd num_words)) / real (length corpus);
                query_terms = build_query_terms query corpus []
            in score_documents bm hash corpus_size avg_doc_len num_words query_terms corpus []))"

section \<open>Concrete archives\<close>

text \<open>
  Files to run the reader on. Each is a complete ZIM file: the 80-byte header, the mimetype
  list, the URL pointer table, the title pointer table, the directory entries, the cluster
  pointer table and the clusters, in this order. The \<open>ZIMFile\<close> object next to each file
  is the one \<open>ZIMFile.__init__\<close> builds from it.
\<close>

text \<open>
  \<open>hello_zim\<close>: one article, \<open>A/hello\<close>, of mimetype \<open>text/html\<close>, with the body
  \<open><html>hi</html>\<close> in blob 0 of an uncompressed cluster.
\<close>

definition hello_zim :: pybytes where
  "hello_zim =
    [90, 73, 77, 4, 5, 0, 0, 0, 0, 0, 0, 0, 0, 0, 0, 0, 0, 0, 0, 0, 0, 0, 0, 0, 1, 0, 0, 0,
     1, 0, 0, 0, 91, 0, 0, 0, 0, 0, 0, 0, 99, 0, 0, 0, 0, 0, 0, 0, 126, 0, 0, 0, 0, 0, 0,
     0, 80, 0, 0, 0, 0, 0, 0, 0, 0, 0, 0, 0, 255, 255, 255, 255, 158, 0, 0, 0, 0, 0, 0, 0,
     116, 101, 120, 116, 47, 104, 116, 109, 108, 0, 0, 103, 0, 0, 0, 0, 0, 0, 0, 0, 0, 0,
     0, 0, 0, 0, 65, 0, 0, 0, 0, 0, 0, 0, 0, 0, 0, 0, 0, 104, 101, 108, 108, 111, 0, 0,
     134, 0, 0, 0, 0, 0, 0, 0, 1, 8, 0, 0, 0, 23, 0, 0, 0, 60, 104, 116, 109, 108, 62, 104,
     105, 60, 47, 104, 116, 109, 108, 62]"

definition hello :: ZIMFile where
  "hello =
     \<lparr>zim_file = hello_zim, zim_enc = Utf8,
      header_fields =
        \<lparr>magicNumber = 72173914, version = 5, uuid_low = 0, uuid_high = 0, articleCount = 1,
         clusterCount = 1, urlPtrPos = 91, titlePtrPos = 99, clusterPtrPos = 126,
         mimeListPos = 80, mainPage = 0, layoutPage = 4294967295, checksumPos = 158\<rparr>,
      mimetype_list = [str_of ''text/html'']\<rparr>"

lemmas eval_simps =
  read_at_def unpack_uint_def returns_def raises_def bind_outcome_def read_zero_terminated_def
  decode.simps str_of_def Let_def

lemma hello_init: "ZIMFile_init hello_zim Utf8 = returns hello"
  by (simp add: ZIMFile_init_def unpack_header_def read_mimetypes.simps hello_def hello_zim_def
      eval_simps)

lemma hello_entry_0:
  "read_directory_entry_by_index hello 0 =
     returns \<lparr>mimetype = 0, parameterLen = 0, namespace = str_of ''A'', revision = 0,
       kind = ArticleEntry 0 0, url = str_of ''hello'', title = [], index = Some 0\<rparr>"
  by (simp add: read_directory_entry_by_index_def read_url_offset_def read_offset_def
      read_directory_entry_def hello_def hello_zim_def eval_simps)

lemma hello_entry_1: "read_directory_entry_by_index hello (Suc 0) = raises StructError"
  by (simp add: read_directory_entry_by_index_def read_url_offset_def read_offset_def
      read_directory_entry_def hello_def hello_zim_def eval_simps)


lemma hello_count: "articleCount (header_fields hello) = 1"
  by (simp add: hello_def)

lemma hello_blob:
  "zim_read_blob lz hello 0 0 = returns (bytes_of ''<html>hi</html>'')"
  by (simp add: zim_read_blob_def read_cluster_offset_def read_offset_def cluster_blob_def
      ClusterData_init_def read_offsets_def source_buffer_def read_blob_def bytes_of_def
      hello_def hello_zim_def eval_simps)

lemma hello_article_0:
  "get_article_by_index lz hello 0 True =
     returns (Article (Some (bytes_of ''<html>hi</html>'')) (str_of ''A'')
                (MimeType (str_of ''text/html'')))"
  by (subst get_article_by_index.simps) (simp add: hello_entry_0 hello_blob returns_def, simp add: hello_def)

lemma hello_linear_hello:
  "get_entry_by_url hello (str_of ''A'') (str_of ''hello'') True =
     returns (Some (\<lparr>mimetype = 0, parameterLen = 0, namespace = str_of ''A'', revision = 0,
       kind = ArticleEntry 0 0, url = str_of ''hello'', title = [], index = Some 0\<rparr>, 0))"
  by (simp add: get_entry_by_url_def hello_count hello_entry_0 returns_def)

lemma hello_binary_hello:
  "get_entry_by_url hello (str_of ''A'') (str_of ''hello'') False =
     returns (Some (\<lparr>mimetype = 0, parameterLen = 0, namespace = str_of ''A'', revision = 0,
       kind = ArticleEntry 0 0, url = str_of ''hello'', title = [], index = Some 0\<rparr>, 0))"
  by (simp add: get_entry_by_url_def hello_count binary_search_loop.simps [of hello]
      hello_entry_0 returns_def bind_outcome_def full_url_def str_of_def)

lemma hello_linear_zebra:
  "get_entry_by_url hello (str_of ''A'') (str_of ''zebra'') True = returns None"
  by (simp add: get_entry_by_url_def hello_count hello_entry_0 returns_def str_of_def)

lemma hello_binary_zebra:
  "get_entry_by_url hello (str_of ''A'') (str_of ''zebra'') False = raises StructError"
  by (simp add: get_entry_by_url_def hello_count binary_search_loop.simps [of hello]
      hello_entry_0 hello_entry_1 returns_def raises_def bind_outcome_def full_url_def str_of_def
      list_less_def)

text \<open>
  \<open>cycle_zim\<close>: two redirect entries and no cluster. \<open>A/a\<close> at index 0 redirects to
  index 1, \<open>A/b\<close> at index 1 redirects to index 0.
\<close>

definition cycle_zim :: pybytes where
  "cycle_zim =
    [90, 73, 77, 4, 5, 0, 0, 0, 0, 0, 0, 0, 0, 0, 0, 0, 0, 0, 0, 0, 0, 0, 0, 0, 2, 0, 0, 0,
     0, 0, 0, 0, 91, 0, 0, 0, 0, 0, 0, 0, 107, 0, 0, 0, 0, 0, 0, 0, 145, 0, 0, 0, 0, 0, 0,
     0, 80, 0, 0, 0, 0, 0, 0, 0, 0, 0, 0, 0, 255, 255, 255, 255, 145, 0, 0, 0, 0, 0, 0, 0,
     116, 101, 120, 116, 47, 104, 116, 109, 108, 0, 0, 115, 0, 0, 0, 0, 0, 0, 0, 130, 0, 0,
     0, 0, 0, 0, 0, 0, 0, 0, 0, 1, 0, 0, 0, 255, 255, 0, 65, 0, 0, 0, 0, 1, 0, 0, 0, 97, 0,
     0, 255, 255, 0, 65, 0, 0, 0, 0, 0, 0, 0, 0, 98, 0, 0]"

definition cycle :: ZIMFile where
  "cycle =
     \<lparr>zim_file = cycle_zim, zim_enc = Utf8,
      header_fields =
        \<lparr>magicNumber = 72173914, version = 5, uuid_low = 0, uuid_high = 0, articleCount = 2,
         clusterCount = 0, urlPtrPos = 91, titlePtrPos = 107, clusterPtrPos = 145,
         mimeListPos = 80, mainPage = 0, layoutPage = 4294967295, checksumPos = 145\<rparr>,
      mimetype_list = [str_of ''text/html'']\<rparr>"

lemma cycle_init: "ZIMFile_init cycle_zim Utf8 = returns cycle"
  by (simp add: ZIMFile_init_def unpack_header_def read_mimetypes.simps cycle_def cycle_zim_def
      eval_simps)

lemma cycle_entry_0:
  "read_directory_entry_by_index cycle 0 =
     returns \<lparr>mimetype = 65535, parameterLen = 0, namespace = str_of ''A'', revision = 0,
       kind = RedirectEntry 1, url = str_of ''a'', title = [], index = Some 0\<rparr>"
  by (simp add: read_directory_entry_by_index_def read_url_offset_def read_offset_def
      read_directory_entry_def cycle_def cycle_zim_def eval_simps)

lemma cycle_entry_1:
  "read_directory_entry_by_index cycle (Suc 0) =
     returns \<lparr>mimetype = 65535, parameterLen = 0, namespace = str_of ''A'', revision = 0,
       kind = RedirectEntry 0, url = str_of ''b'', title = [], index = Some 1\<rparr>"
  by (simp add: read_directory_entry_by_index_def read_url_offset_def read_offset_def
      read_directory_entry_def cycle_def cycle_zim_def eval_simps)

lemma cycle_closed:
  "\<forall>k\<in>{0, Suc 0}. \<exists>entry target. read_directory_entry_by_index cycle k = returns entry
                      \<and> kind entry = RedirectEntry target \<and> target \<in> {0, Suc 0}"
  by (simp add: cycle_entry_0 cycle_entry_1 returns_def)

text \<open>
  \<open>meta_zim\<close>: the article \<open>A/x\<close> at index 0 and two metadata entries behind it,
  \<open>M/Title\<close> at index 1 with the bytes \<open>Wiki\<close> and \<open>M/title\<close> at index 2 with the bytes
  \<open>wiki2\<close>. \<open>ascii_lower\<close> is \<open>str.lower\<close> on ASCII strings.
\<close>

lemma read_more_offsets_numeral:
  "read_more_offsets body pos (numeral k) acc =
     (case unpack_uint 4 (read_at body pos 4) of
        Inl e \<Rightarrow> Inl e
      | Inr v \<Rightarrow> read_more_offsets body (pos + 4) (pred_numeral k) (acc @ [v]))"
  by (simp add: numeral_eq_Suc)

definition ascii_lower :: "pystr \<Rightarrow> pystr" where
  "ascii_lower s = map (\<lambda>c. if 65 \<le> c \<and> c \<le> 90 then c + 32 else c) s"

definition meta_zim :: pybytes where
  "meta_zim =
    [90, 73, 77, 4, 5, 0, 0, 0, 0, 0, 0, 0, 0, 0, 0, 0, 0, 0, 0, 0, 0, 0, 0, 0, 3, 0, 0, 0,
     1, 0, 0, 0, 102, 0, 0, 0, 0, 0, 0, 0, 126, 0, 0, 0, 0, 0, 0, 0, 203, 0, 0, 0, 0, 0, 0,
     0, 80, 0, 0, 0, 0, 0, 0, 0, 0, 0, 0, 0, 255, 255, 255, 255, 239, 0, 0, 0, 0, 0, 0, 0,
     116, 101, 120, 116, 47, 104, 116, 109, 108, 0, 116, 101, 120, 116, 47, 112, 108, 97,
     105, 110, 0, 0, 138, 0, 0, 0, 0, 0, 0, 0, 157, 0, 0, 0, 0, 0, 0, 0, 180, 0, 0, 0, 0,
     0, 0, 0, 0, 0, 0, 0, 1, 0, 0, 0, 2, 0, 0, 0, 0, 0, 0, 65, 0, 0, 0, 0, 0, 0, 0, 0, 0,
     0, 0, 0, 120, 0, 0, 1, 0, 0, 77, 0, 0, 0, 0, 0, 0, 0, 0, 1, 0, 0, 0, 84, 105, 116,
     108, 101, 0, 0, 1, 0, 0, 77, 0, 0, 0, 0, 0, 0, 0, 0, 2, 0, 0, 0, 116, 105, 116, 108,
     101, 0, 0, 211, 0, 0, 0, 0, 0, 0, 0, 1, 16, 0, 0, 0, 18, 0, 0, 0, 22, 0, 0, 0, 27, 0,
     0, 0, 104, 105, 87, 105, 107, 105, 119, 105, 107, 105, 50]"

definition meta :: ZIMFile where
  "meta =
     \<lparr>zim_file = meta_zim, zim_enc = Utf8,
      header_fields =
        \<lparr>magicNumber = 72173914, version = 5, uuid_low = 0, uuid_high = 0, articleCount = 3,
         clusterCount = 1, urlPtrPos = 102, titlePtrPos = 126, clusterPtrPos = 203,
         mimeListPos = 80, mainPage = 0, layoutPage = 4294967295, checksumPos = 239\<rparr>,
      mimetype_list = [str_of ''text/html'', str_of ''text/plain'']\<rparr>"

lemma meta_init: "ZIMFile_init meta_zim Utf8 = returns meta"
  by (simp add: ZIMFile_init_def unpack_header_def read_mimetypes.simps meta_def meta_zim_def
      eval_simps)

lemma meta_count: "articleCount (header_fields meta) = 3"
  by (simp add: meta_def)

definition meta_entry :: "nat \<Rightarrow> entry" where
  "meta_entry i =
     (if i = 0 then
        \<lparr>mimetype = 0, parameterLen = 0, namespace = str_of ''A'', revision = 0,
         kind = ArticleEntry 0 0, url = str_of ''x'', title = [], index = Some 0\<rparr>
      else if i = 1 then
        \<lparr>mimetype = 1, parameterLen = 0, namespace = str_of ''M'', revision = 0,
         kind = ArticleEntry 0 1, url = str_of ''Title'', title = [], index = Some 1\<rparr>
      else
        \<lparr>mimetype = 1, parameterLen = 0, namespace = str_of ''M'', revision = 0,
         kind = ArticleEntry 0 2, url = str_of ''title'', title = [], index = Some 2\<rparr>)"

definition meta_article :: "nat \<Rightarrow> Article" where
  "meta_article i =
     (if i = 0 then Article (Some (bytes_of ''hi'')) (str_of ''A'') (MimeType (str_of ''text/html''))
      else if i = 1
        then Article (Some (bytes_of ''Wiki'')) (str_of ''M'') (MimeType (str_of ''text/plain''))
      else Article (Some (bytes_of ''wiki2'')) (str_of ''M'') (MimeType (str_of ''text/plain'')))"

lemma meta_entries:
  "read_directory_entry_by_index meta 0 = returns (meta_entry 0)"
  "read_directory_entry_by_index meta (Suc 0) = returns (meta_entry 1)"
  "read_directory_entry_by_index meta 2 = returns (meta_entry 2)"
  by (simp_all add: read_directory_entry_by_index_def read_url_offset_def read_offset_def
      read_directory_entry_def meta_def meta_zim_def meta_entry_def eval_simps)

lemma meta_blobs:
  "zim_read_blob lz meta 0 0 = returns (bytes_of ''hi'')"
  "zim_read_blob lz meta 0 (Suc 0) = returns (bytes_of ''Wiki'')"
  "zim_read_blob lz meta 0 2 = returns (bytes_of ''wiki2'')"
  by (simp_all add: zim_read_blob_def read_cluster_offset_def read_offset_def cluster_blob_def
      ClusterData_init_def read_offsets_def source_buffer_def read_blob_def bytes_of_def
      read_more_offsets_numeral meta_def meta_zim_def eval_simps)

lemma meta_articles:
  "get_article_by_index lz meta (Suc 0) True = returns (meta_article 1)"
  "get_article_by_index lz meta 2 True = returns (meta_article 2)"
  by (subst get_article_by_index.simps,
      simp add: meta_entries meta_blobs meta_entry_def meta_article_def returns_def,
      simp add: meta_def)+

lemma meta_run:
  "\<forall>i. 1 \<le> i \<and> i < 3 \<longrightarrow>
       read_directory_entry_by_index meta i = returns (meta_entry i)
       \<and> namespace (meta_entry i) = str_of ''M''
       \<and> get_article_by_index (\<lambda>_. None) meta i True = returns (meta_article i)"
proof (intro allI impI)
  fix i :: nat
  assume "1 \<le> i \<and> i < 3"
  then have "i = Suc 0 \<or> i = 2" by arith
  then show "read_directory_entry_by_index meta i = returns (meta_entry i)
       \<and> namespace (meta_entry i) = str_of ''M''
       \<and> get_article_by_index (\<lambda>_. None) meta i True = returns (meta_article i)"
    by (auto simp: meta_entries meta_articles meta_entry_def)
qed

lemma meta_stop:
  "(1 :: nat) = 0 \<or> (read_directory_entry_by_index meta (1 - 1) = returns (meta_entry (1 - 1))
      \<and> namespace (meta_entry (1 - 1)) \<noteq> str_of ''M'')"
  by (simp add: meta_entries meta_entry_def str_of_def)

section \<open>Properties of the cluster reader\<close>

text \<open>
  \<open>pack("<I", n)\<close> and its siblings, to write offset tables and pointer tables down: \<open>w\<close>
  bytes, least significant first.
\<close>

fun pack_uint :: "nat \<Rightarrow> nat \<Rightarrow> pybytes" where
  "pack_uint 0 n = []"
| "pack_uint (Suc w) n = of_nat (n mod 256) # pack_uint w (n div 256)"

lemma length_pack_uint [simp]: "length (pack_uint w n) = w"
  by (induction w arbitrary: n) auto

lemma unat_byte_mod: "unat (of_nat (n mod 256) :: byte) = n mod 256"
  by (simp add: unat_of_nat)

lemma le_nat_pack_uint: "le_nat (pack_uint w n) = n mod 256 ^ w"
proof (induction w arbitrary: n)
  case 0
  then show ?case by simp
next
  case (Suc w)
  have "n mod 256 + 256 * (n div 256 mod 256 ^ w) = n mod (256 * 256 ^ w)"
    by (simp add: mod_mult2_eq)
  with Suc show ?case by (simp add: unat_byte_mod)
qed

lemma unpack_pack_uint: "n < 256 ^ w \<Longrightarrow> unpack_uint w (pack_uint w n) = Inr n"
  by (simp add: unpack_uint_def le_nat_pack_uint)

lemma read_more_offsets_table:
  assumes "\<forall>v\<in>set vs. v < 2 ^ 32"
  shows "read_more_offsets (pre @ concat (map (pack_uint 4) vs) @ post) (length pre) (length vs) acc
         = Inr (acc @ vs)"
  using assms
proof (induction vs arbitrary: pre acc)
  case Nil
  then show ?case by simp
next
  case (Cons v vs)
  have v: "v < 256 ^ 4" using Cons.prems by simp
  have rd: "read_at (pre @ concat (map (pack_uint 4) (v # vs)) @ post) (length pre) 4 = pack_uint 4 v"
    by (simp add: read_at_def)
  have "read_more_offsets ((pre @ pack_uint 4 v) @ concat (map (pack_uint 4) vs) @ post)
          (length (pre @ pack_uint 4 v)) (length vs) (acc @ [v]) = Inr ((acc @ [v]) @ vs)"
    using Cons.prems by (intro Cons.IH) simp
  then show ?case using rd v by (simp add: unpack_pack_uint)
qed

lemma read_offsets_table:
  assumes "offs \<noteq> []" and "hd offs = 4 * length offs" and "\<forall>v\<in>set offs. v < 2 ^ 32"
  shows "read_offsets (concat (map (pack_uint 4) offs) @ blobs) = Inr offs"
proof -
  obtain v vs where offs: "offs = v # vs" using assms(1) by (cases offs) auto
  have v: "v < 256 ^ 4" and v4: "v = 4 * Suc (length vs)" using assms offs by auto
  have rd: "read_at (concat (map (pack_uint 4) offs) @ blobs) 0 4 = pack_uint 4 v"
    by (simp add: read_at_def offs)
  have "read_more_offsets (pack_uint 4 v @ concat (map (pack_uint 4) vs) @ blobs)
          (length (pack_uint 4 v)) (length vs) [v] = Inr ([v] @ vs)"
    using assms(3) offs by (intro read_more_offsets_table) simp
  then show ?thesis
    using rd v v4 by (simp add: read_offsets_def unpack_pack_uint offs)
qed

lemma sorted_wrt_less_nth_le_last:
  assumes "sorted_wrt (<) (xs::nat list)" "i < length xs"
  shows "xs ! i \<le> last xs"
proof -
  have "xs \<noteq> []" using assms by auto
  then have l: "last xs = xs ! (length xs - 1)" by (simp add: last_conv_nth)
  show ?thesis
  proof (cases "i = length xs - 1")
    case True then show ?thesis using l by simp
  next
    case False
    then have "i < length xs - 1" using assms by simp
    then have "xs ! i < xs ! (length xs - 1)"
      using sorted_wrt_nth_less [OF assms(1), of i "length xs - 1"] assms(2) by simp
    then show ?thesis using l by simp
  qed
qed

text \<open>
  C4. A cluster body starts with the offset table of its \<open>k\<close> blobs: \<open>k + 1\<close> 32-bit
  offsets, the first equal to \<open>4 * (k + 1)\<close>, strictly increasing, the last one within the
  body (the body holds its blobs). The cluster is raw (any compression byte but 4, the
  body follows the byte in the file) or compressed (byte 4, the body is what the
  decompressor returns). Then the reader is built, it stores the \<open>k + 1\<close> offsets of the
  table, \<open>read_blob i\<close> returns the \<open>offs[i+1] - offs[i]\<close> bytes from \<open>offs[i]\<close> on for every
  \<open>i < k\<close>, and it raises \<open>IOError\<close> (the blob index is out of range) for every
  \<open>i \<ge> len(offsets) - 1 = k\<close>.
\<close>

theorem cluster_blob_table:
  assumes len: "length offs = Suc k"
    and first: "offs ! 0 = 4 * Suc k"
    and incr: "sorted_wrt (<) offs"
    and u32: "\<forall>v\<in>set offs. v < 2 ^ 32"
    and body: "body = concat (map (pack_uint 4) offs) @ blobs"
    and holds: "last offs \<le> length body"
    and off: "off < length f"
    and src: "if f ! off = 4 then lz (drop (off + 1) f) = returns body
              else drop (off + 1) f = body"
  shows "\<exists>cd. ClusterData_init lz f off = returns cd
           \<and> offsets cd = offs
           \<and> length (offsets cd) - 1 = k
           \<and> (\<forall>i<k. \<exists>blob. read_blob cd i = Inr blob
                  \<and> blob = take (offs ! (i + 1) - offs ! i) (drop (offs ! i) body)
                  \<and> length blob = offs ! (i + 1) - offs ! i)
           \<and> (\<forall>i. length (offsets cd) - 1 \<le> i \<longrightarrow> read_blob cd i = Inl IOError)"
proof -
  have ne: "offs \<noteq> []" using len by auto
  have hd: "hd offs = 4 * length offs" using ne first len by (simp add: hd_conv_nth)
  have ro: "read_offsets body = Inr offs"
    unfolding body using ne hd u32 by (rule read_offsets_table)
  define cd where "cd = \<lparr>cluster_file = f, cluster_offset = off, compressed = (f ! off = 4),
      buffer = (if f ! off = 4 then body else []), offsets = offs\<rparr>"
  have rd: "read_at f off (Suc 0) = [f ! off]"
    using off by (simp add: read_at_def Cons_nth_drop_Suc [symmetric])
  have ct: "unpack_uint (Suc 0) (read_at f off (Suc 0)) = Inr (unat (f ! off))"
    by (simp add: rd unpack_uint_def)
  have four: "(unat (f ! off) = 4) = (f ! off = 4)"
    by (simp add: word_unat_eq_iff)
  have init: "ClusterData_init lz f off = returns cd"
  proof (cases "f ! off = 4")
    case True
    then show ?thesis using src ro
      by (simp add: ClusterData_init_def ct four bind_outcome_def returns_def raises_def
          source_buffer_def cd_def)
  next
    case False
    then show ?thesis using src ro
      by (simp add: ClusterData_init_def ct four bind_outcome_def returns_def raises_def
          source_buffer_def cd_def)
  qed
  have sb: "source_buffer cd = body"
    using src by (auto simp: source_buffer_def cd_def)
  have oc: "offsets cd = offs" by (simp add: cd_def)
  have blobs: "\<forall>i<k. \<exists>blob. read_blob cd i = Inr blob
                  \<and> blob = take (offs ! (i + 1) - offs ! i) (drop (offs ! i) body)
                  \<and> length blob = offs ! (i + 1) - offs ! i"
  proof (intro allI impI)
    fix i assume i: "i < k"
    have lt: "offs ! i < offs ! (i + 1)"
      using sorted_wrt_nth_less [OF incr, of i "i + 1"] i len by simp
    have "offs ! (i + 1) \<le> last offs"
      using incr i len by (intro sorted_wrt_less_nth_le_last) auto
    then have le: "offs ! (i + 1) \<le> length body" using holds by simp
    have "read_blob cd i = Inr (take (offs ! (i + 1) - offs ! i) (drop (offs ! i) body))"
      using i len lt by (simp add: read_blob_def sb oc read_at_def Let_def nat_diff_distrib')
    moreover have "length (take (offs ! (i + 1) - offs ! i) (drop (offs ! i) body))
        = offs ! (i + 1) - offs ! i"
      using lt le by simp
    ultimately show "\<exists>blob. read_blob cd i = Inr blob
                  \<and> blob = take (offs ! (i + 1) - offs ! i) (drop (offs ! i) body)
                  \<and> length blob = offs ! (i + 1) - offs ! i" by simp
  qed
  have oor: "\<forall>i. length (offsets cd) - 1 \<le> i \<longrightarrow> read_blob cd i = Inl IOError"
    using len by (auto simp: read_blob_def oc)
  show ?thesis
    using init blobs oor len oc by (intro exI [of _ cd]) simp
qed

theorem cluster_blob_table_witness:
  "\<exists>cd. ClusterData_init (\<lambda>_. None)
          (1 # concat (map (pack_uint 4) [12, 22, 42]) @ replicate 10 0x41 @ replicate 20 0x42) 0
        = returns cd
      \<and> offsets cd = [12, 22, 42]
      \<and> read_blob cd 0 = Inr (replicate 10 0x41)
      \<and> read_blob cd 1 = Inr (replicate 20 0x42)
      \<and> read_blob cd 2 = Inl IOError"
proof -
  let ?offs = "[12, 22, 42] :: nat list"
  let ?blobs = "replicate 10 0x41 @ replicate 20 0x42 :: pybytes"
  let ?body = "concat (map (pack_uint 4) ?offs) @ ?blobs"
  let ?f = "1 # ?body"
  have src: "if ?f ! 0 = 4 then (\<lambda>_. None) (drop (0 + 1) ?f) = returns ?body
             else drop (0 + 1) ?f = ?body"
    by simp
  have "\<exists>cd. ClusterData_init (\<lambda>_. None) ?f 0 = returns cd
           \<and> offsets cd = ?offs
           \<and> length (offsets cd) - 1 = 2
           \<and> (\<forall>i<2. \<exists>blob. read_blob cd i = Inr blob
                  \<and> blob = take (?offs ! (i + 1) - ?offs ! i) (drop (?offs ! i) ?body)
                  \<and> length blob = ?offs ! (i + 1) - ?offs ! i)
           \<and> (\<forall>i. length (offsets cd) - 1 \<le> i \<longrightarrow> read_blob cd i = Inl IOError)"
    by (rule cluster_blob_table [where blobs = ?blobs, OF _ _ _ _ _ _ _ src]) simp_all
  then obtain cd where init: "ClusterData_init (\<lambda>_. None) ?f 0 = returns cd"
    and offs: "offsets cd = ?offs"
    and blobs: "\<forall>i<2. \<exists>blob. read_blob cd i = Inr blob
                  \<and> blob = take (?offs ! (i + 1) - ?offs ! i) (drop (?offs ! i) ?body)
                  \<and> length blob = ?offs ! (i + 1) - ?offs ! i"
    and oor: "\<forall>i. length (offsets cd) - 1 \<le> i \<longrightarrow> read_blob cd i = Inl IOError"
    by blast
  have b0: "read_blob cd 0 = Inr (replicate 10 0x41)"
    using blobs [rule_format, of 0] by simp
  have b1: "read_blob cd 1 = Inr (replicate 20 0x42)"
    using blobs [rule_format, of 1] by simp
  have b2: "read_blob cd 2 = Inl IOError"
    using oor [rule_format, of 2] offs by simp
  show ?thesis using init offs b0 b1 b2 by blast
qed

section \<open>Properties of the lookup by url\<close>

text \<open>
  C1. \<open>get_article_by_url\<close> tests the index it found with \<open>if idx:\<close>, which is false for
  the index 0 as it is for \<open>None\<close>. On the archive with the single article \<open>A/hello\<close>
  the binary search finds the entry at index 0, the article at index 0 is the page, and
  \<open>get_article_by_url("A", "hello")\<close> returns \<open>None\<close> all the same.
\<close>

theorem get_article_by_url_index_zero:
  "ZIMFile_init hello_zim Utf8 = returns hello
   \<and> (\<exists>entry. get_entry_by_url hello (str_of ''A'') (str_of ''hello'') False
                 = returns (Some (entry, 0)))
   \<and> get_article_by_index lz hello 0 True =
       returns (Article (Some (bytes_of ''<html>hi</html>'')) (str_of ''A'')
                  (MimeType (str_of ''text/html'')))
   \<and> get_article_by_url lz hello (str_of ''A'') (str_of ''hello'') True = returns None"
  by (simp add: hello_init hello_binary_hello hello_article_0 get_article_by_url_def
      bind_outcome_def returns_def)

text \<open>
  C2. On the same archive the key \<open>A/zebra\<close> is absent and greater than every key of the
  directory. The linear scan returns \<open>(None, None)\<close>. The binary search starts with
  \<open>end = len(self)\<close> and runs \<open>while front <= end\<close>: after index 0 it reads the directory
  entry at index 1, one past the last entry, and raises \<open>struct.error\<close>.
\<close>

theorem linear_binary_differ_above_last:
  "get_entry_by_url hello (str_of ''A'') (str_of ''zebra'') True = returns None
   \<and> get_entry_by_url hello (str_of ''A'') (str_of ''zebra'') False = raises StructError"
  by (simp add: hello_linear_zebra hello_binary_zebra)

text \<open>
  C3. The indices the binary search probes for \<open>A/zebra\<close> on that archive are 0 and 1,
  and 1 is \<open>articleCount\<close>: the read at it is outside the URL pointer table and fails.
\<close>

theorem binary_search_probes_article_count:
  "articleCount (header_fields hello) = 1
   \<and> binary_search_probes hello (full_url (str_of ''A'') (str_of ''zebra'')) 0
         (int (articleCount (header_fields hello))) = [0, 1]
   \<and> read_directory_entry_by_index hello 1 = raises StructError"
  by (simp add: hello_count binary_search_probes.simps [of hello]
      hello_entry_0 hello_entry_1 returns_def raises_def full_url_def str_of_def list_less_def)

section \<open>Compression types\<close>

lemma ClusterData_init_raw:
  assumes "off < length f" and "f ! off \<noteq> 4"
  shows "ClusterData_init lz f off =
           (case read_offsets (drop (off + 1) f) of
              Inl e \<Rightarrow> raises e
            | Inr offs \<Rightarrow> returns \<lparr>cluster_file = f, cluster_offset = off, compressed = False,
                                   buffer = [], offsets = offs\<rparr>)"
proof -
  have rd: "read_at f off (Suc 0) = [f ! off]"
    using assms(1) by (simp add: read_at_def Cons_nth_drop_Suc [symmetric])
  have ct: "unpack_uint (Suc 0) (read_at f off (Suc 0)) = Inr (unat (f ! off))"
    by (simp add: rd unpack_uint_def)
  have four: "unat (f ! off) \<noteq> 4"
    using assms(2) by (simp add: word_unat_eq_iff)
  show ?thesis
    using four
    by (simp add: ClusterData_init_def ct bind_outcome_def returns_def raises_def
        source_buffer_def split: sum.splits)
qed

lemma read_more_offsets_error:
  "read_more_offsets body pos n acc = Inl e \<Longrightarrow> e = StructError"
  by (induction n arbitrary: pos acc) (auto simp: unpack_uint_def split: if_splits sum.splits)

lemma read_offsets_error: "read_offsets body = Inl e \<Longrightarrow> e = StructError"
  by (auto simp: read_offsets_def unpack_uint_def Let_def
      dest: read_more_offsets_error split: if_splits sum.splits)

lemma read_blob_error: "read_blob cd i = Inl e \<Longrightarrow> e = IOError \<or> e = ValueError"
  by (auto simp: read_blob_def Let_def split: if_splits)

lemma cluster_blob_raw:
  assumes "off < length f" and "b \<noteq> 4"
  shows "cluster_blob lz (f[off := b]) off i =
      (case read_offsets (drop (off + 1) f) of
         Inl e \<Rightarrow> raises e
       | Inr offs \<Rightarrow>
           (case read_blob \<lparr>cluster_file = f, cluster_offset = off, compressed = False,
                  buffer = [], offsets = offs\<rparr> i of
              Inl e \<Rightarrow> raises e | Inr blob \<Rightarrow> returns blob))"
proof -
  have blob: "read_blob \<lparr>cluster_file = f[off := b], cluster_offset = off, compressed = False,
                 buffer = [], offsets = offs\<rparr> i
       = read_blob \<lparr>cluster_file = f, cluster_offset = off, compressed = False,
                 buffer = [], offsets = offs\<rparr> i" for offs
    by (simp add: read_blob_def source_buffer_def Let_def)
  show ?thesis
    using assms blob
    by (simp add: cluster_blob_def ClusterData_init_raw bind_outcome_def returns_def
        raises_def split: sum.splits)
qed

text \<open>
  C5, as the code has it. The constructor only asks whether the compression byte is 4.
  A cluster with any other byte (1, but also 0, 2, 3, 5, ...) is read as an uncompressed
  cluster: building the reader and reading a blob give the outcome they give when the byte
  is 1. The call returns or raises; what it can raise is what a raw cluster can raise
  (\<open>struct.error\<close> for a short offset table, \<open>IOError\<close> for a blob index out of range,
  \<open>ValueError\<close> for a negative blob size). There is no error for an unsupported
  compression type.
\<close>

theorem other_compression_is_raw:
  assumes "off < length f" and "ct \<noteq> 4"
  shows "cluster_blob lz (f[off := ct]) off i = cluster_blob lz (f[off := 1]) off i
       \<and> (\<forall>e. cluster_blob lz (f[off := ct]) off i = raises e
              \<longrightarrow> e = StructError \<or> e = IOError \<or> e = ValueError)
       \<and> cluster_blob lz (f[off := ct]) off i \<noteq> None"
  using cluster_blob_raw [OF assms, of lz i] cluster_blob_raw [OF assms(1), of 1 lz i]
    read_offsets_error [of "drop (off + 1) f"] read_blob_error
  by (auto simp: raises_def returns_def split: sum.splits)

theorem other_compression_is_raw_witness:
  "(0 :: nat) < length [1, 8, 0, 0, 0, 9, 0, 0, 0, 0x41 :: byte] \<and> (2 :: byte) \<noteq> 4
   \<and> cluster_blob (\<lambda>_. None) [2, 8, 0, 0, 0, 9, 0, 0, 0, 0x41] 0 0
       = cluster_blob (\<lambda>_. None) [1, 8, 0, 0, 0, 9, 0, 0, 0, 0x41] 0 0
   \<and> cluster_blob (\<lambda>_. None) [2, 8, 0, 0, 0, 9, 0, 0, 0, 0x41] 0 0 \<noteq> None"
proof -
  have h1: "(0 :: nat) < length [1, 8, 0, 0, 0, 9, 0, 0, 0, 0x41 :: byte]" by simp
  have h2: "(2 :: byte) \<noteq> 4" by simp
  have f2: "[1, 8, 0, 0, 0, 9, 0, 0, 0, 0x41 :: byte][0 := 2] = [2, 8, 0, 0, 0, 9, 0, 0, 0, 0x41]"
    by simp
  have f1: "[1, 8, 0, 0, 0, 9, 0, 0, 0, 0x41 :: byte][0 := 1] = [1, 8, 0, 0, 0, 9, 0, 0, 0, 0x41]"
    by simp
  from other_compression_is_raw [OF h1 h2, of "\<lambda>_. None" 0, unfolded f1 f2] h1 h2
  show ?thesis by blast
qed

text \<open>
  The claim fails on a cluster whose compression byte is 2: the reader is built and blob 0
  is returned.
\<close>

theorem unsupported_compression_counterexample:
  "cluster_blob (\<lambda>_. None) [2, 8, 0, 0, 0, 9, 0, 0, 0, 0x41] 0 0 = returns [0x41]"
  by (simp add: cluster_blob_def ClusterData_init_def read_offsets_def read_at_def
      unpack_uint_def bind_outcome_def returns_def raises_def source_buffer_def read_blob_def
      Let_def)

section \<open>Redirects\<close>

lemma returned_not_in_redirect_closed_set:
  assumes closed: "\<forall>k\<in>S. \<exists>entry target. read_directory_entry_by_index zim k = returns entry
                      \<and> kind entry = RedirectEntry target \<and> target \<in> S"
    and ret: "get_article_by_index lz0 zim0 idx0 fr0 = Some y0"
  shows "\<not> (zim0 = zim \<and> idx0 \<in> S \<and> fr0)"
proof (rule get_article_by_index.raw_induct
    [where P = "\<lambda>lz' zim' idx fr y. \<not> (zim' = zim \<and> idx \<in> S \<and> fr)", OF _ ret])
  fix g :: "lzma \<Rightarrow> ZIMFile \<Rightarrow> nat \<Rightarrow> bool \<Rightarrow> (error + Article) option"
    and lz' zim' idx fr y
  assume IH: "\<And>lz' zim' idx fr y. g lz' zim' idx fr = Some y
                \<Longrightarrow> \<not> (zim' = zim \<and> idx \<in> S \<and> fr)"
    and body: "(case read_directory_entry_by_index zim' idx of
        None \<Rightarrow> None
      | Some (Inl e) \<Rightarrow> Some (Inl e)
      | Some (Inr entry) \<Rightarrow>
          (case kind entry of
             ArticleEntry cluster blob \<Rightarrow>
               (case zim_read_blob lz' zim' cluster blob of
                  None \<Rightarrow> None
                | Some (Inl e) \<Rightarrow> Some (Inl e)
                | Some (Inr bytes) \<Rightarrow>
                    if mimetype entry < length (mimetype_list zim')
                    then Some (Inr (Article (Some bytes) (namespace entry)
                                      (MimeType (mimetype_list zim' ! mimetype entry))))
                    else Some (Inl IndexError))
           | RedirectEntry target \<Rightarrow>
               if fr then g lz' zim' target fr
               else Some (Inr (Article None (namespace entry) (RedirectTo target))))) = Some y"
  show "\<not> (zim' = zim \<and> idx \<in> S \<and> fr)"
  proof
    assume a: "zim' = zim \<and> idx \<in> S \<and> fr"
    with closed obtain entry target
      where e: "read_directory_entry_by_index zim idx = returns entry"
        and k: "kind entry = RedirectEntry target" and t: "target \<in> S"
      by blast
    from body a e k have "g lz' zim target True = Some y"
      by (simp add: returns_def)
    from IH [OF this] t show False by simp
  qed
qed

lemma redirect_closed_never_returns:
  assumes "i \<in> S"
    and "\<forall>k\<in>S. \<exists>entry target. read_directory_entry_by_index zim k = returns entry
                      \<and> kind entry = RedirectEntry target \<and> target \<in> S"
  shows "get_article_by_index lz zim i True = None"
proof (cases "get_article_by_index lz zim i True")
  case None
  then show ?thesis .
next
  case (Some y)
  from returned_not_in_redirect_closed_set [OF assms(2) Some] assms(1)
  show ?thesis by simp
qed

lemma redirect_closed_recursion_error:
  assumes "\<forall>k\<in>S. \<exists>entry target. read_directory_entry_by_index zim k = returns entry
                      \<and> kind entry = RedirectEntry target \<and> target \<in> S"
  shows "i \<in> S \<Longrightarrow> get_article_by_index_limited limit lz zim i True = raises RecursionError"
proof (induction limit arbitrary: i)
  case 0
  then show ?case by simp
next
  case (Suc limit)
  from assms Suc.prems obtain entry target
    where e: "read_directory_entry_by_index zim i = returns entry"
      and k: "kind entry = RedirectEntry target" and t: "target \<in> S"
    by blast
  from Suc.IH [OF t] e k show ?case by (simp add: returns_def)
qed

lemma no_follow_redirect:
  assumes "read_directory_entry_by_index zim i = returns entry"
    and "kind entry = RedirectEntry target"
  shows "get_article_by_index lz zim i False =
           returns (Article None (namespace entry) (RedirectTo target))"
  using assms by (subst get_article_by_index.simps) (simp add: returns_def)

text \<open>
  C6, as the code has it. Let \<open>S\<close> be a set of directory indices, each of them a redirect
  entry whose target is in \<open>S\<close> again: the indices on a redirect chain that runs into a
  cycle. For \<open>i\<close> in \<open>S\<close>, \<open>_get_article_by_index(i, follow_redirect=True)\<close> does not
  return: it calls itself once per redirect entry, with no depth guard and no error of its
  own for a cycle. Run by CPython, the recursion ends with the interpreter's
  \<open>RecursionError\<close>, whatever the recursion limit is.
\<close>

theorem redirect_cycle_never_returns:
  assumes "i \<in> S"
    and "\<forall>k\<in>S. \<exists>entry target. read_directory_entry_by_index zim k = returns entry
                      \<and> kind entry = RedirectEntry target \<and> target \<in> S"
  shows "get_article_by_index lz zim i True = None
       \<and> (\<forall>limit. get_article_by_index_limited limit lz zim i True = raises RecursionError)"
  using redirect_closed_never_returns [OF assms] redirect_closed_recursion_error [OF assms(2) assms(1)]
  by simp

theorem redirect_cycle_never_returns_witness:
  "(0 :: nat) \<in> {0, Suc 0}
   \<and> (\<exists>entry. read_directory_entry_by_index cycle 0 = returns entry
          \<and> kind entry = RedirectEntry 1)
   \<and> (\<exists>entry. read_directory_entry_by_index cycle 1 = returns entry
          \<and> kind entry = RedirectEntry 0)
   \<and> get_article_by_index (\<lambda>_. None) cycle 0 True = None
   \<and> get_article_by_index_limited 1000 (\<lambda>_. None) cycle 0 True = raises RecursionError"
proof -
  have h: "(0 :: nat) \<in> {0, Suc 0}" by simp
  from redirect_cycle_never_returns [OF h cycle_closed, of "\<lambda>_. None"] h
  show ?thesis by (simp add: cycle_entry_0 cycle_entry_1 returns_def)
qed

text \<open>
  The claim fails on the archive \<open>cycle_zim\<close> at index 0: the call does not return, and
  under a recursion limit of 1000 it raises \<open>RecursionError\<close>.
\<close>

theorem redirect_cycle_counterexample:
  "ZIMFile_init cycle_zim Utf8 = returns cycle
   \<and> get_article_by_index (\<lambda>_. None) cycle 0 True = None
   \<and> get_article_by_index_limited 1000 (\<lambda>_. None) cycle 0 True = raises RecursionError"
proof -
  have h: "(0 :: nat) \<in> {0, Suc 0}" by simp
  from redirect_closed_never_returns [OF h cycle_closed]
    redirect_closed_recursion_error [OF cycle_closed h] cycle_init
  show ?thesis by simp
qed

section \<open>Zero-terminated strings\<close>

lemma decode_Ignore: "decode enc Ignore bs = Inr (chars_kept (decode_steps enc bs))"
proof (induction enc bs rule: decode_steps.induct)
  case (1 enc bs)
  show ?case
  proof (cases "bs = []")
    case True
    then show ?thesis by (simp add: decode.simps decode_steps.simps)
  next
    case False
    with 1 show ?thesis
      by (subst decode.simps, subst decode_steps.simps) (auto split: step.splits)
  qed
qed

lemma decode_Replace: "decode enc Replace bs = Inr (chars_replaced (decode_steps enc bs))"
proof (induction enc bs rule: decode_steps.induct)
  case (1 enc bs)
  show ?case
  proof (cases "bs = []")
    case True
    then show ?thesis by (simp add: decode.simps decode_steps.simps)
  next
    case False
    with 1 show ?thesis
      by (subst decode.simps, subst decode_steps.simps) (auto split: step.splits)
  qed
qed

lemma read_until_zero_field:
  "0 \<notin> set field \<Longrightarrow> read_until_zero (field @ 0 # rest) = Some field"
  by (induction field) auto

lemma read_until_zero_none: "0 \<notin> set bs \<Longrightarrow> read_until_zero bs = None"
  by (induction bs) auto

text \<open>
  C8, as the code has it. A field is the bytes before the first zero byte at or after the
  position of the file. \<open>read_zero_terminated\<close> returns (it does not raise) the field
  decoded with \<open>errors="ignore"\<close>: the characters of the well-formed sequences, in order,
  and nothing for a malformed sequence, where \<open>errors="replace"\<close> would put U+FFFD. The
  file is left behind the terminator.
\<close>

theorem read_zero_terminated_ignores_malformed:
  assumes "0 \<notin> set field"
  shows "read_zero_terminated (pre @ field @ 0 # rest) (length pre) enc
           = returns (chars_kept (decode_steps enc field), length pre + length field + 1)
       \<and> decode enc Replace field = Inr (chars_replaced (decode_steps enc field))"
  using assms
  by (simp add: read_zero_terminated_def read_until_zero_field decode_Ignore decode_Replace)

theorem read_zero_terminated_ignores_malformed_witness:
  "(0 :: byte) \<notin> set [0x61, 0xFF, 0x62]
   \<and> read_zero_terminated ([0x2A] @ [0x61, 0xFF, 0x62] @ 0 # [0x63]) (length [0x2A :: byte]) Utf8
       = returns ([0x61, 0x62], 5)
   \<and> decode_steps Utf8 [0x61, 0xFF, 0x62] = [Decoded 0x61 1, Malformed 1, Decoded 0x62 1]"
proof -
  have h: "(0 :: byte) \<notin> set [0x61, 0xFF, 0x62]" by simp
  have st: "decode_steps Utf8 [0x61, 0xFF, 0x62] = [Decoded 0x61 1, Malformed 1, Decoded 0x62 1]"
    by (simp add: decode_steps.simps)
  have len: "length [0x2A :: byte] + length [0x61, 0xFF, 0x62 :: byte] + 1 = 5" by simp
  from read_zero_terminated_ignores_malformed [OF h, of "[0x2A]" "[0x63]" Utf8, unfolded len] h st
  show ?thesis by simp
qed

text \<open>
  The claim fails on the field \<open>61 FF 62\<close> in UTF-8: the byte \<open>FF\<close> is malformed (the
  strict decoder raises), the result is \<open>ab\<close> with no marker in it, and the decoding with
  replacement would be \<open>a\<close>, U+FFFD, \<open>b\<close>.
\<close>

theorem decode_replace_counterexample:
  "read_zero_terminated [0x61, 0xFF, 0x62, 0] 0 Utf8 = returns ([0x61, 0x62], 4)
   \<and> decode Utf8 Replace [0x61, 0xFF, 0x62] = Inr [0x61, 0xFFFD, 0x62]
   \<and> decode Utf8 Strict [0x61, 0xFF, 0x62] = Inl UnicodeDecodeError"
  by (simp add: read_zero_terminated_def decode.simps returns_def raises_def)

section \<open>Metadata\<close>

lemma assigned_empty [simp]: "assigned key val j j m = m"
  by (simp add: assigned_def)

lemma assigned_Suc:
  "j \<le> k \<Longrightarrow> assigned key val j (Suc k) m = assigned key val j k (m(key k \<mapsto> val k))"
  by (simp add: assigned_def)

lemma assigned_absent:
  "j \<le> k \<Longrightarrow> \<forall>i. j \<le> i \<and> i < k \<longrightarrow> key i \<noteq> x \<Longrightarrow> assigned key val j k m x = m x"
proof (induction k arbitrary: m rule: nat_induct_at_least)
  case base
  then show ?case by simp
next
  case (Suc k)
  have kx: "key k \<noteq> x" using Suc.prems Suc.hyps by (metis lessI)
  have "\<forall>i. j \<le> i \<and> i < k \<longrightarrow> key i \<noteq> x" using Suc.prems by auto
  from Suc.IH [OF this] have "assigned key val j k (m(key k \<mapsto> val k)) x = (m(key k \<mapsto> val k)) x" .
  with kx show ?case by (simp add: assigned_Suc [OF Suc.hyps])
qed

lemma assigned_first:
  "j \<le> i \<Longrightarrow> i < k \<Longrightarrow> \<forall>i'. j \<le> i' \<and> i' < i \<longrightarrow> key i' \<noteq> key i
     \<Longrightarrow> assigned key val j k m (key i) = Some (val i)"
proof (induction k arbitrary: m)
  case 0
  then show ?case by simp
next
  case (Suc k)
  have jk: "j \<le> k" using Suc.prems by simp
  show ?case
  proof (cases "i = k")
    case True
    with Suc.prems jk show ?thesis
      by (simp add: assigned_Suc assigned_absent)
  next
    case False
    with Suc.prems have "i < k" by simp
    with Suc.IH [OF Suc.prems(1) this Suc.prems(3)] jk show ?thesis
      by (simp add: assigned_Suc)
  qed
qed

lemma dom_assigned:
  "j \<le> k \<Longrightarrow> dom (assigned key val j k m) = dom m \<union> {key i | i. j \<le> i \<and> i < k}"
proof (induction k arbitrary: m rule: nat_induct_at_least)
  case base
  then show ?case by auto
next
  case (Suc k)
  have s: "{key i | i. j \<le> i \<and> i < Suc k} = insert (key k) {key i | i. j \<le> i \<and> i < k}"
    using Suc.hyps by (auto simp: less_Suc_eq)
  have "dom (assigned key val j (Suc k) m)
      = dom (m(key k \<mapsto> val k)) \<union> {key i | i. j \<le> i \<and> i < k}"
    by (simp only: assigned_Suc [OF Suc.hyps] Suc.IH)
  also have "\<dots> = dom m \<union> insert (key k) {key i | i. j \<le> i \<and> i < k}"
    by (simp only: dom_fun_upd) auto
  finally show ?case by (simp only: s)
qed

lemma metadata_loop_run:
  assumes run: "\<forall>i. j \<le> i \<and> i < n \<longrightarrow>
              read_directory_entry_by_index zim i = returns (e i)
              \<and> namespace (e i) = str_of ''M''
              \<and> get_article_by_index lz zim i True = returns (a i)"
    and stop: "j = 0 \<or> (read_directory_entry_by_index zim (j - 1) = returns (e (j - 1))
              \<and> namespace (e (j - 1)) \<noteq> str_of ''M'')"
  shows "j \<le> k \<Longrightarrow> k \<le> n \<Longrightarrow>
         metadata_loop lz lower zim (rev [0..<k]) m
           = returns (assigned (\<lambda>i. lower (url (e i))) (\<lambda>i. data (a i)) j k m)"
proof (induction k arbitrary: m rule: nat_induct_at_least)
  case base
  show ?case
  proof (cases j)
    case 0
    then show ?thesis by simp
  next
    case (Suc j')
    with stop show ?thesis by (simp add: returns_def)
  qed
next
  case (Suc k)
  from run Suc.hyps Suc.prems
  have k: "read_directory_entry_by_index zim k = returns (e k)"
    "namespace (e k) = str_of ''M''"
    "get_article_by_index lz zim k True = returns (a k)"
    by auto
  from Suc.prems have "k \<le> n" by simp
  from Suc.IH [OF this] k Suc.hyps show ?case
    by (simp add: returns_def assigned_Suc)
qed

text \<open>
  C7, as the code has it. Let the entries at the indices \<open>j \<le> i < articleCount\<close> be in
  namespace \<open>M\<close> and let the entry at \<open>j - 1\<close>, if there is one, be in another namespace:
  the contiguous tail run. \<open>metadata()\<close> reads the directory backwards from
  \<open>articleCount - 1\<close>, stops at \<open>j - 1\<close>, and returns a dictionary whose keys are exactly
  the lowercased urls of the entries of the run. An entry's lowercased url is mapped to
  the article bytes of that entry when no entry of the run with a smaller index has the
  same lowercased url; the assignments are made in descending order of the index and a
  later one replaces an earlier one, so where two urls of the run agree up to case the key
  holds the bytes of the entry with the smaller index. (The statement is about the entries
  whose article is returned; an error or a redirect cycle at an entry of the run ends
  \<open>metadata()\<close> with it.)
\<close>

theorem metadata_tail_run:
  assumes n: "articleCount (header_fields zim) = n" and j: "j \<le> n"
    and run: "\<forall>i. j \<le> i \<and> i < n \<longrightarrow>
              read_directory_entry_by_index zim i = returns (e i)
              \<and> namespace (e i) = str_of ''M''
              \<and> get_article_by_index lz zim i True = returns (a i)"
    and stop: "j = 0 \<or> (read_directory_entry_by_index zim (j - 1) = returns (e (j - 1))
              \<and> namespace (e (j - 1)) \<noteq> str_of ''M'')"
  shows "\<exists>m. metadata lz lower zim = returns m
           \<and> dom m = {lower (url (e i)) | i. j \<le> i \<and> i < n}
           \<and> (\<forall>i. j \<le> i \<and> i < n
                  \<and> (\<forall>i'. j \<le> i' \<and> i' < i \<longrightarrow> lower (url (e i')) \<noteq> lower (url (e i)))
                \<longrightarrow> m (lower (url (e i))) = Some (data (a i)))"
proof -
  let ?m = "assigned (\<lambda>i. lower (url (e i))) (\<lambda>i. data (a i)) j n Map.empty"
  have "metadata lz lower zim = returns ?m"
    unfolding metadata_def n using metadata_loop_run [OF run stop j order_refl] .
  moreover have "dom ?m = {lower (url (e i)) | i. j \<le> i \<and> i < n}"
    using dom_assigned [OF j, of "\<lambda>i. lower (url (e i))" "\<lambda>i. data (a i)" Map.empty] by simp
  moreover have "\<forall>i. j \<le> i \<and> i < n
                  \<and> (\<forall>i'. j \<le> i' \<and> i' < i \<longrightarrow> lower (url (e i')) \<noteq> lower (url (e i)))
                \<longrightarrow> ?m (lower (url (e i))) = Some (data (a i))"
    using assigned_first [of j _ n "\<lambda>i. lower (url (e i))"] by blast
  ultimately show ?thesis by blast
qed

theorem metadata_tail_run_witness:
  "articleCount (header_fields meta) = 3 \<and> (1 :: nat) \<le> 3
   \<and> (\<exists>m. metadata (\<lambda>_. None) ascii_lower meta = returns m
          \<and> m (str_of ''title'') = Some (Some (bytes_of ''Wiki'')))"
proof -
  from metadata_tail_run [OF meta_count _ meta_run meta_stop, of ascii_lower]
  obtain m where m: "metadata (\<lambda>_. None) ascii_lower meta = returns m"
    and first: "\<forall>i. 1 \<le> i \<and> i < 3
                  \<and> (\<forall>i'. 1 \<le> i' \<and> i' < i \<longrightarrow> ascii_lower (url (meta_entry i'))
                           \<noteq> ascii_lower (url (meta_entry i)))
                \<longrightarrow> m (ascii_lower (url (meta_entry i))) = Some (data (meta_article i))"
    by auto
  from first [rule_format, of 1]
  have "m (ascii_lower (url (meta_entry 1))) = Some (data (meta_article 1))" by simp
  then have "m (str_of ''title'') = Some (Some (bytes_of ''Wiki''))"
    by (simp add: meta_entry_def meta_article_def ascii_lower_def str_of_def)
  with m show ?thesis by (auto simp: meta_count)
qed

text \<open>
  The claim fails on \<open>meta_zim\<close>. The entry at index 2 is in the run, its lowercased url
  is \<open>title\<close> and its article bytes are \<open>wiki2\<close>, but \<open>metadata()["title"]\<close> is
  \<open>Wiki\<close>, the bytes of \<open>M/Title\<close> at index 1.
\<close>

theorem metadata_collision_counterexample:
  "(case metadata (\<lambda>_. None) ascii_lower meta of
      Some (Inr m) \<Rightarrow> m (str_of ''title'') = Some (Some (bytes_of ''Wiki''))
    | _ \<Rightarrow> False)
   \<and> read_directory_entry_by_index meta 2 = returns (meta_entry 2)
   \<and> namespace (meta_entry 2) = str_of ''M''
   \<and> ascii_lower (url (meta_entry 2)) = str_of ''title''
   \<and> get_article_by_index (\<lambda>_. None) meta 2 True =
       returns (Article (Some (bytes_of ''wiki2'')) (str_of ''M'') (MimeType (str_of ''text/plain'')))"
proof -
  have r: "rev [0..<3] = [2, Suc 0, 0]" by (simp add: upt_rec)
  have "metadata (\<lambda>_. None) ascii_lower meta =
      returns (Map.empty(ascii_lower (url (meta_entry 2)) \<mapsto> data (meta_article 2),
                         ascii_lower (url (meta_entry 1)) \<mapsto> data (meta_article 1)))"
    by (simp add: metadata_def meta_count r meta_entries meta_articles returns_def)
       (simp add: meta_entry_def str_of_def)
  then show ?thesis
    by (simp add: returns_def meta_entries meta_articles)
       (simp add: meta_entry_def meta_article_def ascii_lower_def str_of_def)
qed

section \<open>Properties of the BM25 ranker\<close>

text \<open>
  Two corpora to run the ranker on, and a function to stand for \<open>hash\<close> on them: the
  length of the string. It tells the three lowercased \<open>titles\<close> apart and gives the two
  \<open>same_length_titles\<close> one value, as \<open>hash\<close> does for some pairs of strings: it has
  only finitely many values.
\<close>

definition titles :: "pystr list" where
  "titles = [str_of ''The quick brown fox'', str_of ''slow green turtle'', str_of ''quickly'']"


definition length_hash :: "pystr \<Rightarrow> int" where
  "length_hash s = int (length s)"



lemma str_find_ge: "- 1 \<le> str_find doc term"
  by (induction doc) (auto simp: Let_def)

lemma str_find_sublist: "(str_find doc term > - 1) = sublist term doc"
proof (induction doc)
  case Nil
  then show ?case by simp
next
  case (Cons c rest)
  have "(str_find rest term = - 1) = (\<not> sublist term rest)"
    using Cons.IH str_find_ge [of rest "term"] by auto
  then show ?case
    using str_find_ge [of rest "term"] by (auto simp: Let_def sublist_Cons_right)
qed

lemma tally_documents_eq:
  "tally_documents term corpus frequency = frequency + length (filter (sublist term) corpus)"
  by (induction corpus arbitrary: frequency) (auto simp: str_find_sublist)

lemma build_query_terms_eq:
  "build_query_terms query corpus query_terms =
     query_terms @ map (\<lambda>t. (t, length (filter (sublist t) corpus))) query"
  by (induction query arbitrary: query_terms) (auto simp: tally_documents_eq)

lemma str_count_char: "str_count doc [c] = count_list doc c"
proof (induction doc)
  case Nil
  then show ?case by (simp add: str_count.simps)
next
  case (Cons x doc)
  then show ?case by (subst str_count.simps) (auto simp: prefix_Cons)
qed

lemma map_of_fold_update:
  "map_of (fold (\<lambda>(k, v). AList.update k v) ps al) = map_of al ++ map_of (rev ps)"
proof (induction ps arbitrary: al)
  case Nil
  then show ?case by simp
next
  case (Cons p ps)
  obtain k v where p: "p = (k, v)" by (cases p)
  have e: "(map_of al)(k \<mapsto> v) ++ map_of (rev ps) = map_of al ++ ([k \<mapsto> v] ++ map_of (rev ps))"
    by (rule ext) (auto simp: map_add_def split: option.splits)
  have "map_of (fold (\<lambda>(k, v). AList.update k v) (p # ps) al)
      = map_of (fold (\<lambda>(k, v). AList.update k v) ps (AList.update k v al))"
    by (simp add: p)
  also have "\<dots> = map_of (AList.update k v al) ++ map_of (rev ps)"
    by (rule Cons.IH)
  also have "\<dots> = (map_of al)(k \<mapsto> v) ++ map_of (rev ps)"
    by (simp only: update_conv')
  also have "\<dots> = map_of al ++ map_of (rev (p # ps))"
    by (simp only: e) (simp add: p)
  finally show ?case .
qed

lemma map_of_dict_of_pairs: "map_of (dict_of_pairs ps) = map_of (rev ps)"
  by (simp add: dict_of_pairs_def map_of_fold_update)


lemma map_of_keyed_last:
  "d \<in> set xs \<Longrightarrow>
     map_of (map (\<lambda>x. (h x, g x)) (rev xs)) (h d) = Some (g (last (filter (\<lambda>x. h x = h d) xs)))"
proof (induction xs rule: rev_induct)
  case Nil
  then show ?case by simp
next
  case (snoc x xs)
  show ?case
  proof (cases "h x = h d")
    case True
    then show ?thesis by simp
  next
    case False
    with snoc.prems have "d \<in> set xs" by auto
    from snoc.IH [OF this] False show ?thesis by simp
  qed
qed

lemma map_of_keyed_some:
  "d \<in> set xs \<Longrightarrow> \<exists>d'\<in>set xs. map_of (map (\<lambda>x. (h x, g x)) xs) (h d) = Some (g d')"
  by (induction xs) auto

lemma num_words_lookup_last:
  assumes "d \<in> set corpus"
  shows "map_of (num_words_dict hash corpus) (hash d)
           = Some (count_list (last (filter (\<lambda>d'. hash d' = hash d) corpus)) 32 + 1)"
proof -
  have "map_of (map (\<lambda>doc. (hash doc, str_count doc (str_of '' '') + 1)) (rev corpus)) (hash d)
      = Some (str_count (last (filter (\<lambda>d'. hash d' = hash d) corpus)) (str_of '' '') + 1)"
    using assms by (rule map_of_keyed_last)
  then show ?thesis
    by (simp add: num_words_dict_def map_of_dict_of_pairs rev_map str_of_def str_count_char)
qed



lemma num_words_present:
  assumes "d \<in> set corpus"
  shows "\<exists>n. map_of (num_words_dict hash corpus) (hash d) = Some n \<and> 0 < n"
proof -
  from assms have "d \<in> set (rev corpus)" by simp
  from map_of_keyed_some [OF this, of hash "\<lambda>doc. str_count doc (str_of '' '') + 1"]
  show ?thesis
    by (auto simp: num_words_dict_def map_of_dict_of_pairs rev_map)
qed




lemma count_list_replicate: "count_list (replicate n x) x = n"
  by (induction n) simp_all

lemma hash_collision:
  assumes "finite (range hash)"
  shows "\<exists>n m. n \<noteq> m \<and> hash (replicate n (32 :: nat)) = hash (replicate m 32)"
proof -
  let ?f = "\<lambda>n :: nat. hash (replicate n (32 :: nat))"
  have "\<not> inj ?f"
  proof
    assume i: "inj ?f"
    have "range ?f \<subseteq> range hash" by auto
    with assms have "finite (range ?f)" by (rule rev_finite_subset)
    from finite_imageD [OF this i] show False by simp
  qed
  then show ?thesis by (auto simp: inj_on_def)
qed

text \<open>
  Such corpora exist for every hash function with finitely many values, the 64-bit
  \<open>hash\<close> of the Python runtime among them: among the strings of \<open>n\<close> spaces, which
  \<open>str.lower\<close> leaves as they are, two of different lengths share a hash, and the first of
  them is looked up with the word count of the second.
\<close>

lemma word_count_collision_exists:
  fixes lower :: "pystr \<Rightarrow> pystr"
  assumes fin: "finite (range hash)"
    and low: "\<forall>n. lower (replicate n 32) = replicate n 32"
  shows "\<exists>corpus. corpus \<noteq> []
           \<and> (\<exists>d\<in>set (map lower corpus).
                 map_of (num_words_dict hash (map lower corpus)) (hash d)
                   \<noteq> Some (count_list d 32 + 1))"
proof -
  from hash_collision [OF fin] obtain n m
    where nm: "n \<noteq> m" and h: "hash (replicate n (32 :: nat)) = hash (replicate m 32)"
    by blast
  let ?c = "[replicate n (32 :: nat), replicate m 32]"
  have l: "map lower ?c = ?c" using low by simp
  have d: "replicate n 32 \<in> set ?c" by simp
  have "last (filter (\<lambda>d'. hash d' = hash (replicate n 32)) ?c) = replicate m 32"
    using h by simp
  with num_words_lookup_last [OF d, of hash]
  have "map_of (num_words_dict hash ?c) (hash (replicate n 32)) = Some (m + 1)"
    by (simp add: count_list_replicate)
  with nm have bad: "map_of (num_words_dict hash ?c) (hash (replicate n 32))
                  \<noteq> Some (count_list (replicate n (32 :: nat)) 32 + 1)"
    by (simp add: count_list_replicate)
  have "\<exists>d\<in>set ?c. map_of (num_words_dict hash ?c) (hash d) \<noteq> Some (count_list d 32 + 1)"
    using bad d by blast
  then have "\<exists>d\<in>set (map lower ?c).
      map_of (num_words_dict hash (map lower ?c)) (hash d) \<noteq> Some (count_list d 32 + 1)"
    by (simp only: l)
  moreover have "?c \<noteq> []" by simp
  ultimately show ?thesis by blast
qed

lemma word_count_collision_exists_check:
  "finite (range (\<lambda>s :: pystr. int (length s mod 2)))
   \<and> (\<exists>corpus. corpus \<noteq> []
         \<and> (\<exists>d\<in>set (map ascii_lower corpus).
               map_of (num_words_dict (\<lambda>s. int (length s mod 2)) (map ascii_lower corpus))
                      (int (length d mod 2))
                 \<noteq> Some (count_list d 32 + 1)))"
proof -
  have "range (\<lambda>s :: pystr. int (length s mod 2)) \<subseteq> {0, 1}" by auto
  then have fin: "finite (range (\<lambda>s :: pystr. int (length s mod 2)))"
    by (rule finite_subset) simp
  have low: "\<forall>n. ascii_lower (replicate n 32) = replicate n 32"
    by (simp add: ascii_lower_def)
  from word_count_collision_exists [OF fin low] fin show ?thesis by blast
qed

lemma update_nonempty: "AList.update k v al \<noteq> []"
  by (cases al) auto

lemma fold_update_nonempty:
  "ps \<noteq> [] \<or> al \<noteq> [] \<Longrightarrow> fold (\<lambda>(k, v). AList.update k v) ps al \<noteq> []"
proof (induction ps arbitrary: al)
  case Nil
  then show ?case by simp
next
  case (Cons p ps)
  obtain k v where p: "p = (k, v)" by (cases p)
  have "fold (\<lambda>(k, v). AList.update k v) ps (AList.update k v al) \<noteq> []"
    by (rule Cons.IH) (simp add: update_nonempty)
  then show ?case by (simp add: p)
qed

lemma set_update_subset: "set (AList.update k v al) \<subseteq> insert (k, v) (set al)"
  by (induction al) auto

lemma set_fold_update_subset:
  "set (fold (\<lambda>(k, v). AList.update k v) ps al) \<subseteq> set ps \<union> set al"
proof (induction ps arbitrary: al)
  case Nil
  then show ?case by simp
next
  case (Cons p ps)
  obtain k v where p: "p = (k, v)" by (cases p)
  have "set (fold (\<lambda>(k, v). AList.update k v) ps (AList.update k v al))
      \<subseteq> set ps \<union> set (AList.update k v al)"
    by (rule Cons.IH)
  with set_update_subset [of k v al] show ?case by (auto simp: p)
qed

lemma sum_list_pos:
  fixes xs :: "nat list"
  shows "xs \<noteq> [] \<Longrightarrow> \<forall>x\<in>set xs. 0 < x \<Longrightarrow> 0 < sum_list xs"
  by (induction xs) auto

lemma num_words_sum_pos:
  assumes "corpus \<noteq> []"
  shows "0 < sum_list (map snd (num_words_dict hash corpus))"
proof (rule sum_list_pos)
  show "map snd (num_words_dict hash corpus) \<noteq> []"
    using assms by (simp add: num_words_dict_def dict_of_pairs_def fold_update_nonempty)
  show "\<forall>x\<in>set (map snd (num_words_dict hash corpus)). 0 < x"
    using set_fold_update_subset
      [of "map (\<lambda>doc. (hash doc, str_count doc (str_of '' '') + 1)) corpus" "[]"]
    by (auto simp: num_words_dict_def dict_of_pairs_def)
qed

lemma term_score_returns:
  assumes bm: "0 \<le> bm_b bm" "bm_b bm \<le> bm_k1 bm" "0 < bm_k1 bm"
    and avg: "0 < avg_doc_len"
    and freq: "frequency \<le> corpus_size"
    and nw: "map_of num_words (hash document) = Some n" "0 < n"
  shows "\<exists>s. term_score bm hash corpus_size avg_doc_len num_words document (t, frequency) = Inr s"
proof -
  have x: "0 < (real frequency + 0.5) / (real corpus_size - real frequency + 0.5)"
    using freq by (intro divide_pos_pos) auto
  have r: "0 < real n / avg_doc_len"
    using avg nw(2) by simp
  have "0 < real (str_count document t) + bm_k1 bm * 1 - bm_b bm + bm_b bm * (real n / avg_doc_len)"
  proof (cases "bm_b bm = 0")
    case True
    with bm show ?thesis by (simp add: add_nonneg_pos)
  next
    case False
    with bm have "0 < bm_b bm" by simp
    with r have "0 < bm_b bm * (real n / avg_doc_len)" by (intro mult_pos_pos)
    moreover have "0 \<le> real (str_count document t) + bm_k1 bm * 1 - bm_b bm"
      using bm by simp
    ultimately show ?thesis by linarith
  qed
  with x avg nw(1) show ?thesis
    by (simp add: term_score_def Let_def)
qed

lemma score_terms_returns:
  assumes "\<forall>tf\<in>set query_terms.
             \<exists>s. term_score bm hash corpus_size avg_doc_len num_words document tf = Inr s"
  shows "\<exists>total. score_terms bm hash corpus_size avg_doc_len num_words document query_terms
                  total_score = Inr total"
  using assms
proof (induction query_terms arbitrary: total_score)
  case Nil
  then show ?case by simp
next
  case (Cons tf query_terms)
  from Cons.prems obtain s
    where s: "term_score bm hash corpus_size avg_doc_len num_words document tf = Inr s"
    by auto
  from Cons.IH [of "total_score + s"] Cons.prems s show ?case by simp
qed

lemma score_documents_order:
  assumes "\<forall>d\<in>set docs. \<exists>total.
             score_terms bm hash corpus_size avg_doc_len num_words d query_terms 0 = Inr total"
  shows "\<exists>scores. score_documents bm hash corpus_size avg_doc_len num_words query_terms docs result
                    = Inr (result @ scores)
           \<and> length scores = length docs
           \<and> (\<forall>i<length docs.
                 score_terms bm hash corpus_size avg_doc_len num_words (docs ! i) query_terms 0
                   = Inr (scores ! i))"
  using assms
proof (induction docs arbitrary: result)
  case Nil
  then show ?case by simp
next
  case (Cons d docs)
  from Cons.prems obtain total
    where total: "score_terms bm hash corpus_size avg_doc_len num_words d query_terms 0 = Inr total"
    by auto
  from Cons.IH [of "result @ [total]"] Cons.prems obtain scores
    where sc: "score_documents bm hash corpus_size avg_doc_len num_words query_terms docs
                 (result @ [total]) = Inr ((result @ [total]) @ scores)"
      and len: "length scores = length docs"
      and nth: "\<forall>i<length docs.
                 score_terms bm hash corpus_size avg_doc_len num_words (docs ! i) query_terms 0
                   = Inr (scores ! i)"
    by auto
  have "\<forall>i<length (d # docs).
          score_terms bm hash corpus_size avg_doc_len num_words ((d # docs) ! i) query_terms 0
            = Inr ((total # scores) ! i)"
    using total nth by (auto simp: nth_Cons split: nat.splits)
  with sc len total show ?case
    by (intro exI [of _ "total # scores"]) simp
qed

text \<open>
  C10. For a non-empty corpus, \<open>calculate_scores\<close> returns a list with one score per
  document, and the score at position \<open>i\<close> is the total the inner loop computes for the
  \<open>i\<close>-th document of the (lowercased) corpus. That it returns needs the loop's divisor to
  be non-zero, which holds for the parameters \<open>0 \<le> b \<le> k1\<close>, \<open>0 < k1\<close>, those of
  \<open>BM25()\<close> among them.
\<close>

theorem calculate_scores_order:
  assumes "corpus \<noteq> []" and "0 \<le> bm_b bm" and "bm_b bm \<le> bm_k1 bm" and "0 < bm_k1 bm"
  shows "\<exists>scores. calculate_scores bm lower hash query corpus = Inr scores
           \<and> length scores = length corpus
           \<and> (\<forall>i<length corpus.
                 score_terms bm hash (length corpus)
                   (real (sum_list (map snd (num_words_dict hash (map lower corpus))))
                      / real (length corpus))
                   (num_words_dict hash (map lower corpus))
                   (lower (corpus ! i))
                   (build_query_terms (map lower query) (map lower corpus) []) 0
                 = Inr (scores ! i))"
proof -
  let ?corpus = "map lower corpus"
  let ?D = "num_words_dict hash ?corpus"
  let ?avg = "real (sum_list (map snd ?D)) / real (length corpus)"
  let ?qts = "build_query_terms (map lower query) ?corpus []"
  have ne: "?corpus \<noteq> []" using assms(1) by simp
  have avg: "0 < ?avg"
    using num_words_sum_pos [OF ne, of hash] assms(1) by simp
  have terms: "\<forall>d\<in>set ?corpus. \<forall>tf\<in>set ?qts.
      \<exists>s. term_score bm hash (length corpus) ?avg ?D d tf = Inr s"
  proof (intro ballI)
    fix d tf
    assume d: "d \<in> set ?corpus" and tf: "tf \<in> set ?qts"
    from tf obtain t where t: "tf = (t, length (filter (sublist t) ?corpus))"
      by (auto simp: build_query_terms_eq)
    have freq: "length (filter (sublist t) ?corpus) \<le> length corpus"
      using length_filter_le [of "sublist t" ?corpus] by simp
    from num_words_present [OF d, of hash] obtain n
      where n: "map_of ?D (hash d) = Some n" "0 < n" by auto
    from term_score_returns [where hash = hash and document = d and num_words = ?D and t = t,
        OF assms(2-4) avg freq n] t
    show "\<exists>s. term_score bm hash (length corpus) ?avg ?D d tf = Inr s" by simp
  qed
  have docs: "\<forall>d\<in>set ?corpus. \<exists>total.
      score_terms bm hash (length corpus) ?avg ?D d ?qts 0 = Inr total"
    using terms by (intro ballI score_terms_returns) auto
  from score_documents_order [OF docs, of "[]"] obtain scores
    where sc: "score_documents bm hash (length corpus) ?avg ?D ?qts ?corpus [] = Inr scores"
      and len: "length scores = length ?corpus"
      and nth: "\<forall>i<length ?corpus.
                 score_terms bm hash (length corpus) ?avg ?D (?corpus ! i) ?qts 0
                   = Inr (scores ! i)"
    by auto
  have "calculate_scores bm lower hash query corpus = Inr scores"
    using sc assms(1) by (simp add: calculate_scores_def Let_def)
  with len nth show ?thesis by auto
qed

theorem calculate_scores_order_witness:
  "titles \<noteq> [] \<and> 0 \<le> bm_b BM25_init \<and> bm_b BM25_init \<le> bm_k1 BM25_init
   \<and> 0 < bm_k1 BM25_init
   \<and> (\<exists>scores. calculate_scores BM25_init ascii_lower length_hash [str_of ''Quick''] titles
                  = Inr scores
          \<and> length scores = 3)"
proof -
  have ne: "titles \<noteq> []" by (simp add: titles_def)
  have b0: "0 \<le> bm_b BM25_init" and bk: "bm_b BM25_init \<le> bm_k1 BM25_init"
    and k0: "0 < bm_k1 BM25_init"
    by (simp_all add: BM25_init_def)
  have n: "length titles = 3" by (simp add: titles_def)
  from calculate_scores_order [OF ne b0 bk k0, of ascii_lower length_hash "[str_of ''Quick'']"]
  obtain scores
    where "calculate_scores BM25_init ascii_lower length_hash [str_of ''Quick''] titles = Inr scores"
      and "length scores = length titles"
    by blast
  with n ne b0 bk k0 show ?thesis by auto
qed

end
